theory Spec2Isabelle
  imports Complex_Main
begin

section \<open>Text\<close>

text \<open>
  Python \<open>str\<close> values are modelled as Isabelle strings.  A \<open>char\<close> stands for the code
  point of the same number, so the model covers text whose code points are below 256;
  the character classes used below are the ones Python's \<open>str\<close> methods and its \<open>re\<close>
  module have on that range.
\<close>

definition code_point :: "char \<Rightarrow> nat" where
  "code_point c = of_char c"

definition is_space :: "char \<Rightarrow> bool" where
  \<comment> \<open>\<open>str.isspace\<close> and the class \<^verbatim>\<open>\s\<close>: code points 9-13, 28-32, 133 and 160\<close>
  "is_space c = (c \<in> set [CHR 0x09, CHR 0x0A, CHR 0x0B, CHR 0x0C, CHR 0x0D,
                             CHR 0x1C, CHR 0x1D, CHR 0x1E, CHR 0x1F, CHR 0x20, CHR 0x85, CHR 0xA0])"

definition is_word :: "char \<Rightarrow> bool" where
  \<comment> \<open>the class \<^verbatim>\<open>\w\<close>: alphanumeric code points and the underscore\<close>
  "is_word c =
     (let n = code_point c in
        (48 \<le> n \<and> n \<le> 57) \<or> (65 \<le> n \<and> n \<le> 90) \<or> n = 95 \<or> (97 \<le> n \<and> n \<le> 122)
        \<or> n = 170 \<or> n = 178 \<or> n = 179 \<or> n = 181 \<or> n = 185 \<or> n = 186
        \<or> (188 \<le> n \<and> n \<le> 190) \<or> (192 \<le> n \<and> n \<le> 214)
        \<or> (216 \<le> n \<and> n \<le> 246) \<or> 248 \<le> n)"

definition ascii_lower :: "char \<Rightarrow> char" where
  "ascii_lower c =
     (case map_of (zip ''ABCDEFGHIJKLMNOPQRSTUVWXYZ'' ''abcdefghijklmnopqrstuvwxyz'') c of
        Some l \<Rightarrow> l
      | None \<Rightarrow> c)"

definition strip_by :: "(char \<Rightarrow> bool) \<Rightarrow> string \<Rightarrow> string" where
  \<comment> \<open>drop the leading and the trailing characters that satisfy \<open>P\<close>\<close>
  "strip_by P s = rev (dropWhile P (rev (dropWhile P s)))"

definition strip_chars :: "char list \<Rightarrow> string \<Rightarrow> string" where
  \<comment> \<open>\<open>s.strip(chars)\<close>\<close>
  "strip_chars cs s = strip_by (\<lambda>c. c \<in> set cs) s"

definition strip_ws :: "string \<Rightarrow> string" where
  \<comment> \<open>\<open>s.strip()\<close>\<close>
  "strip_ws s = strip_by is_space s"

definition count_char :: "char \<Rightarrow> string \<Rightarrow> nat" where
  \<comment> \<open>\<open>s.count(c)\<close> for a one-character \<open>c\<close>\<close>
  "count_char c s = length (filter (\<lambda>x. x = c) s)"

definition endswith :: "string \<Rightarrow> string \<Rightarrow> bool" where
  "endswith s suf = (length suf \<le> length s \<and> drop (length s - length suf) s = suf)"

fun str_nat :: "nat \<Rightarrow> string" where
  "str_nat n =
     (if n < 10 then [''0123456789'' ! n] else str_nat (n div 10) @ [''0123456789'' ! (n mod 10)])"

declare str_nat.simps [simp del]

definition str_int :: "int \<Rightarrow> string" where
  \<comment> \<open>\<open>str(i)\<close>, the decimal numeral an f-string prints\<close>
  "str_int i = (if i < 0 then CHR ''-'' # str_nat (nat (- i)) else str_nat (nat i))"

definition utf8 :: "string \<Rightarrow> string" where
  \<comment> \<open>the bytes of the UTF-8 encoding of a text with code points below 256\<close>
  "utf8 s = concat (map (\<lambda>c. let n = code_point c in
       if n < 128 then [c] else [char_of (192 + n div 64), char_of (128 + n mod 64)]) s)"

section \<open>Regular expressions\<close>

text \<open>
  The two compiled patterns of the module are values of a small datatype of regular
  expressions.  \<open>re_match\<close> decides, by derivatives, whether the pattern matches the whole
  string; this is what \<open>pattern.match(s)\<close> decides for the two patterns, which both end in
  \<^verbatim>\<open>$\<close>.  Outside multi-line mode \<^verbatim>\<open>$\<close> matches at the end of the string and just before a
  newline that ends it, hence \<open>dollar\<close>.
\<close>

datatype cclass =
    Lit char            \<comment> \<open>a literal character\<close>
  | LitI char           \<comment> \<open>a literal character under \<open>re.IGNORECASE\<close>\<close>
  | Space               \<comment> \<open>\<^verbatim>\<open>\s\<close>\<close>
  | Word                \<comment> \<open>\<^verbatim>\<open>\w\<close>\<close>
  | Dot                 \<comment> \<open>\<^verbatim>\<open>.\<close> under \<open>re.DOTALL\<close>\<close>
  | NoneOf "char list"  \<comment> \<open>a negated class \<^verbatim>\<open>[^...]\<close>\<close>

fun cmatch :: "cclass \<Rightarrow> char \<Rightarrow> bool" where
  "cmatch (Lit p) c = (c = p)"
| "cmatch (LitI p) c = (ascii_lower c = ascii_lower p)"
| "cmatch Space c = is_space c"
| "cmatch Word c = is_word c"
| "cmatch Dot c = True"
| "cmatch (NoneOf cs) c = (c \<notin> set cs)"

datatype rexp = Zero | Eps | Chr cclass | Alt rexp rexp | Seq rexp rexp | Star rexp

fun nullable :: "rexp \<Rightarrow> bool" where
  "nullable Zero = False"
| "nullable Eps = True"
| "nullable (Chr k) = False"
| "nullable (Alt r s) = (nullable r \<or> nullable s)"
| "nullable (Seq r s) = (nullable r \<and> nullable s)"
| "nullable (Star r) = True"

fun alt :: "rexp \<Rightarrow> rexp \<Rightarrow> rexp" where
  "alt Zero s = s"
| "alt r Zero = r"
| "alt r s = Alt r s"

fun seq :: "rexp \<Rightarrow> rexp \<Rightarrow> rexp" where
  "seq Zero s = Zero"
| "seq Eps s = s"
| "seq r s = Seq r s"

fun deriv :: "char \<Rightarrow> rexp \<Rightarrow> rexp" where
  "deriv c Zero = Zero"
| "deriv c Eps = Zero"
| "deriv c (Chr k) = (if cmatch k c then Eps else Zero)"
| "deriv c (Alt r s) = alt (deriv c r) (deriv c s)"
| "deriv c (Seq r s) =
     (if nullable r then alt (seq (deriv c r) s) (deriv c s) else seq (deriv c r) s)"
| "deriv c (Star r) = seq (deriv c r) (Star r)"

fun re_match :: "rexp \<Rightarrow> string \<Rightarrow> bool" where
  "re_match r [] = nullable r"
| "re_match r (c # cs) = re_match (deriv c r) cs"

definition word :: "string \<Rightarrow> rexp" where
  \<comment> \<open>a run of literal characters of a pattern compiled with \<open>re.IGNORECASE\<close>\<close>
  "word w = foldr (\<lambda>c r. Seq (Chr (LitI c)) r) w Eps"

definition opt :: "rexp \<Rightarrow> rexp" where
  "opt r = Alt r Eps"

definition plus :: "rexp \<Rightarrow> rexp" where
  "plus r = Seq r (Star r)"

definition dollar :: rexp where
  "dollar = opt (Chr (Lit (CHR 0x0A)))"

definition DOT_GRAPH_PATTERN :: rexp where
  \<comment> \<open>\<^verbatim>\<open>^\s*(strict\s+)?(graph|digraph)\s+\w*\s*\{.*\}\s*$\<close> with \<open>re.DOTALL | re.IGNORECASE\<close>\<close>
  "DOT_GRAPH_PATTERN =
     Seq (Star (Chr Space))
    (Seq (opt (Seq (word ''strict'') (plus (Chr Space))))
    (Seq (Alt (word ''graph'') (word ''digraph''))
    (Seq (plus (Chr Space))
    (Seq (Star (Chr Word))
    (Seq (Star (Chr Space))
    (Seq (Chr (LitI (CHR ''{'')))
    (Seq (Star (Chr Dot))
    (Seq (Chr (LitI (CHR ''}'')))
    (Seq (Star (Chr Space)) dollar)))))))))"

definition DOT_BASIC_VALIDATION :: rexp where
  \<comment> \<open>\<^verbatim>\<open>^[^<>|*?]*$\<close>\<close>
  "DOT_BASIC_VALIDATION = Seq (Star (Chr (NoneOf ''<>|*?''))) dollar"

subsection \<open>The language of a regular expression\<close>

definition conc :: "string set \<Rightarrow> string set \<Rightarrow> string set" where
  "conc A B = {u @ v | u v. u \<in> A \<and> v \<in> B}"

inductive_set star :: "string set \<Rightarrow> string set" for A :: "string set" where
  star_empty: "[] \<in> star A"
| star_step: "u \<in> A \<Longrightarrow> v \<in> star A \<Longrightarrow> u @ v \<in> star A"

fun lang :: "rexp \<Rightarrow> string set" where
  "lang Zero = {}"
| "lang Eps = {[]}"
| "lang (Chr k) = {[c] | c. cmatch k c}"
| "lang (Alt r s) = lang r \<union> lang s"
| "lang (Seq r s) = conc (lang r) (lang s)"
| "lang (Star r) = star (lang r)"

definition left_quot :: "char \<Rightarrow> string set \<Rightarrow> string set" where
  "left_quot c A = {w. c # w \<in> A}"

section \<open>Errors\<close>

datatype error =
    SecurityError string
  | DOTSyntaxError string
  | FileOperationError string
  | ValueError string
  | OSError string
      \<comment> \<open>an \<open>OSError\<close> of the operating system or the standard library
          (\<open>FileNotFoundError\<close>, \<open>PermissionError\<close>, ...) that nothing has wrapped yet\<close>

fun error_message :: "error \<Rightarrow> string" where
  \<comment> \<open>\<open>str(e)\<close>\<close>
  "error_message (SecurityError m) = m"
| "error_message (DOTSyntaxError m) = m"
| "error_message (FileOperationError m) = m"
| "error_message (ValueError m) = m"
| "error_message (OSError m) = m"

datatype os_error = Errno nat string
  \<comment> \<open>the \<open>errno\<close> and the file name of an \<open>OSError\<close> raised by a system call\<close>

fun errno :: "os_error \<Rightarrow> nat" where
  "errno (Errno n f) = n"

definition strerror :: "nat \<Rightarrow> string" where
  "strerror n =
     (if n = 2 then ''No such file or directory''
      else if n = 13 then ''Permission denied''
      else if n = 17 then ''File exists''
      else if n = 20 then ''Not a directory''
      else if n = 21 then ''Is a directory''
      else if n = 40 then ''Too many levels of symbolic links''
      else ''Unknown error'')"

fun str_os_error :: "os_error \<Rightarrow> string" where
  \<comment> \<open>\<open>str(e)\<close>, as in \<^verbatim>\<open>[Errno 13] Permission denied: '/srv/ro/x'\<close>\<close>
  "str_os_error (Errno n f) =
     ''[Errno '' @ str_nat n @ ''] '' @ strerror n @ '': '' @ [CHR 0x27] @ f @ [CHR 0x27]"

section \<open>Paths\<close>

text \<open>
  A \<open>Path\<close> object is modelled by its absolute list of components (pathlib's \<open>parts\<close>
  without the anchor \<open>/\<close>): every \<open>Path\<close> of the module comes from \<open>resolve()\<close>, from
  \<open>tempfile.gettempdir()\<close> or from joining a name onto one of those.  POSIX paths.
\<close>

type_synonym path = "string list"

fun split_slash :: "string \<Rightarrow> string list" where
  \<comment> \<open>\<open>s.split('/')\<close>\<close>
  "split_slash [] = [[]]"
| "split_slash (c # cs) =
     (if c = CHR ''/'' then [] # split_slash cs
      else (case split_slash cs of
              [] \<Rightarrow> [[c]]
            | w # ws \<Rightarrow> (c # w) # ws))"

definition path_parts :: "string \<Rightarrow> string list" where
  \<comment> \<open>the components of \<open>Path(s)\<close>: pathlib drops empty and \<open>.\<close> components\<close>
  "path_parts s = filter (\<lambda>c. c \<noteq> [] \<and> c \<noteq> ''.'') (split_slash s)"

definition is_absolute :: "string \<Rightarrow> bool" where
  "is_absolute s = (s \<noteq> [] \<and> hd s = CHR ''/'')"

definition str_path :: "path \<Rightarrow> string" where
  \<comment> \<open>\<open>str(path)\<close>\<close>
  "str_path p = (if p = [] then ''/'' else concat (map (\<lambda>c. CHR ''/'' # c) p))"

definition path_join :: "path \<Rightarrow> string \<Rightarrow> path" where
  \<comment> \<open>\<open>path / s\<close>: an absolute right operand replaces the left one\<close>
  "path_join p s = (if is_absolute s then path_parts s else p @ path_parts s)"


definition is_relative_to :: "path \<Rightarrow> path \<Rightarrow> bool" where
  \<comment> \<open>\<open>path.relative_to(base)\<close> returns: \<open>base\<close> is \<open>path\<close> or one of its ancestors\<close>
  "is_relative_to p base = (take (length base) p = base)"

definition suffix_of :: "string \<Rightarrow> string" where
  \<comment> \<open>pathlib's \<open>suffix\<close> of a name: from its last dot on, unless that dot is first or last\<close>
  "suffix_of name =
     (let after = rev (takeWhile (\<lambda>c. c \<noteq> CHR ''.'') (rev name)) in
      if CHR ''.'' \<in> set name \<and> after \<noteq> [] \<and> length after + 1 < length name
      then CHR ''.'' # after else [])"

definition with_suffix :: "path \<Rightarrow> string \<Rightarrow> string + path" where
  \<comment> \<open>\<open>path.with_suffix(suffix)\<close>; a path with an empty name raises \<open>ValueError\<close>\<close>
  "with_suffix p suffix =
     (if p = [] then Inl (''PosixPath('' @ [CHR 0x27] @ ''/'' @ [CHR 0x27] @ '') has an empty name'')
      else let name = last p in
           Inr (butlast p @ [take (length name - length (suffix_of name)) name @ suffix]))"

section \<open>File system\<close>

text \<open>
  The file system maps a path to a directory, a regular file or a symbolic link.  The
  flag of a directory or file says whether the process may write to it; a link holds its
  target as it was written, absolute or relative to the directory of the link.  In a
  file system as the kernel keeps it, what lies above a node is a directory; the
  definitions do not depend on it, the example file system satisfies it.
\<close>

datatype node = Dir bool | File bool string | Link string

type_synonym filesystem = "path \<Rightarrow> node option"

text \<open>
  \<open>realpath\<close> is \<open>os.path.realpath\<close> in its non-strict mode: it walks the components on
  top of the directory resolved so far, skips empty and \<open>.\<close> components, lets \<open>..\<close> remove
  the last resolved component (\<open>/..\<close> is \<open>/\<close>), follows a symbolic link by walking its
  target in place of it, and keeps a component that does not exist.  On a loop of
  symbolic links the walk does not end, and \<open>realpath\<close> is \<open>None\<close>; Python detects the
  loop, and \<open>Path.resolve()\<close> raises \<open>RuntimeError\<close>.
\<close>

partial_function (option) realpath :: "filesystem \<Rightarrow> path \<Rightarrow> string list \<Rightarrow> path option" where
  "realpath fs acc rest =
     (case rest of
        [] \<Rightarrow> Some acc
      | c # cs \<Rightarrow>
          if c = [] \<or> c = ''.'' then realpath fs acc cs
          else if c = ''..'' then realpath fs (butlast acc) cs
          else
            (case fs (acc @ [c]) of
               Some (Link target) \<Rightarrow>
                 realpath fs (if is_absolute target then [] else acc) (path_parts target @ cs)
             | _ \<Rightarrow> realpath fs (acc @ [c]) cs))"

definition resolve_str :: "filesystem \<Rightarrow> path \<Rightarrow> string \<Rightarrow> string + path" where
  \<comment> \<open>\<open>Path(s).resolve()\<close> in the working directory \<open>wd\<close>; \<open>Inl\<close> is the message of the
      \<open>ValueError\<close> (a NUL character) or \<open>RuntimeError\<close> (a loop of links) raised\<close>
  "resolve_str fs wd s =
     (if CHR 0x00 \<in> set s then Inl ''embedded null byte''
      else
        (case realpath fs (if is_absolute s then [] else wd) (path_parts s) of
           None \<Rightarrow>
             Inl (''Symlink loop from '' @ [CHR 0x27]
                  @ str_path ((if is_absolute s then [] else wd) @ path_parts s) @ [CHR 0x27])
         | Some p \<Rightarrow> Inr p))"

definition resolve_path :: "filesystem \<Rightarrow> path \<Rightarrow> string + path" where
  \<comment> \<open>\<open>p.resolve()\<close> for a \<open>Path\<close> object\<close>
  "resolve_path fs p =
     (if CHR 0x00 \<in> set (concat p) then Inl ''embedded null byte''
      else
        (case realpath fs [] p of
           None \<Rightarrow> Inl (''Symlink loop from '' @ [CHR 0x27] @ str_path p @ [CHR 0x27])
         | Some q \<Rightarrow> Inr q))"

definition is_link :: "filesystem \<Rightarrow> path \<Rightarrow> bool" where
  \<comment> \<open>\<open>os.path.islink(p)\<close> for a path without links above its last component\<close>
  "is_link fs p = (case fs p of Some (Link t) \<Rightarrow> True | _ \<Rightarrow> False)"








subsection \<open>System calls\<close>

text \<open>
  The calls below are the ones the module makes, with the outcome the operating system
  gives them.  They follow symbolic links as the kernel does; \<open>Inl\<close> and \<open>Some\<close> carry
  the \<open>OSError\<close> raised.  What the process creates is writable to it when its umask keeps
  the owner's write bit: the flag \<open>w\<close>.
\<close>

definition lookup :: "filesystem \<Rightarrow> path \<Rightarrow> node option" where
  \<comment> \<open>the node that \<open>os.stat(path)\<close> reaches, if any\<close>
  "lookup fs p = (case realpath fs [] p of None \<Rightarrow> None | Some q \<Rightarrow> fs q)"

definition is_dir :: "filesystem \<Rightarrow> path \<Rightarrow> bool" where
  \<comment> \<open>\<open>path.is_dir()\<close>\<close>
  "is_dir fs p = (case lookup fs p of Some (Dir w) \<Rightarrow> True | _ \<Rightarrow> False)"

definition exists_path :: "filesystem \<Rightarrow> path \<Rightarrow> bool" where
  \<comment> \<open>\<open>path.exists()\<close>\<close>
  "exists_path fs p = (lookup fs p \<noteq> None)"

definition os_access_W :: "filesystem \<Rightarrow> path \<Rightarrow> bool" where
  \<comment> \<open>\<open>os.access(path, os.W_OK)\<close>\<close>
  "os_access_W fs p =
     (case lookup fs p of Some (Dir w) \<Rightarrow> w | Some (File w c) \<Rightarrow> w | _ \<Rightarrow> False)"

fun under_file :: "filesystem \<Rightarrow> path \<Rightarrow> string list \<Rightarrow> bool" where
  \<comment> \<open>a regular file lies on the way from \<open>cur\<close> down the components\<close>
  "under_file fs cur [] = False"
| "under_file fs cur (c # cs) =
     (case fs cur of Some (File w x) \<Rightarrow> True | _ \<Rightarrow> under_file fs (cur @ [c]) cs)"

definition dir_of :: "filesystem \<Rightarrow> path \<Rightarrow> nat + path" where
  \<comment> \<open>the directory a path leads to, or the \<open>errno\<close> of the failed walk: \<open>ELOOP\<close>,
      \<open>ENOTDIR\<close> or \<open>ENOENT\<close>\<close>
  "dir_of fs p =
     (case realpath fs [] p of
        None \<Rightarrow> Inl 40
      | Some d \<Rightarrow>
          (case fs d of
             Some (Dir w) \<Rightarrow> Inr d
           | Some (File w x) \<Rightarrow> Inl 20
           | _ \<Rightarrow> if under_file fs [] d then Inl 20 else Inl 2))"

definition os_mkdir :: "bool \<Rightarrow> filesystem \<Rightarrow> path \<Rightarrow> os_error + filesystem" where
  \<comment> \<open>\<open>os.mkdir(path)\<close>: the last component itself is not followed\<close>
  "os_mkdir w fs p =
     (if p = [] then Inl (Errno 17 (str_path p))
      else
        (case dir_of fs (butlast p) of
           Inl n \<Rightarrow> Inl (Errno n (str_path p))
         | Inr d \<Rightarrow>
             if last p = ''..'' then Inl (Errno 17 (str_path p))
             else
               (case fs (d @ [last p]) of
                  Some nd \<Rightarrow> Inl (Errno 17 (str_path p))
                | None \<Rightarrow>
                    (case fs d of
                       Some (Dir True) \<Rightarrow> Inr (fs(d @ [last p] \<mapsto> Dir w))
                     | _ \<Rightarrow> Inl (Errno 13 (str_path p))))))"

fun mkdir_parents :: "bool \<Rightarrow> filesystem \<Rightarrow> path \<Rightarrow> os_error option \<times> filesystem" where
  \<comment> \<open>\<open>path.mkdir(parents=True, exist_ok=True)\<close> as pathlib does it: \<open>os.mkdir\<close>; on
      \<open>FileNotFoundError\<close> first the parent, then the directory once more; any other
      \<open>OSError\<close> is dropped when the path is a directory\<close>
  "mkdir_parents w fs p =
     (case os_mkdir w fs p of
        Inr fs' \<Rightarrow> (None, fs')
      | Inl err \<Rightarrow>
          if errno err = 2 then
            (if p = [] then (Some err, fs)
             else
               (case mkdir_parents w fs (butlast p) of
                  (Some err', fs1) \<Rightarrow> (Some err', fs1)
                | (None, fs1) \<Rightarrow>
                    (case os_mkdir w fs1 p of
                       Inr fs2 \<Rightarrow> (None, fs2)
                     | Inl err2 \<Rightarrow>
                         if errno err2 \<noteq> 2 \<and> is_dir fs1 p then (None, fs1)
                         else (Some err2, fs1))))
          else if is_dir fs p then (None, fs)
          else (Some err, fs))"

declare mkdir_parents.simps [simp del]

definition write_text :: "bool \<Rightarrow> filesystem \<Rightarrow> path \<Rightarrow> string \<Rightarrow> os_error + filesystem" where
  \<comment> \<open>\<open>with open(path, 'w', encoding='utf-8') as f: f.write(text)\<close>\<close>
  "write_text w fs p text =
     (case realpath fs [] p of
        None \<Rightarrow> Inl (Errno 40 (str_path p))
      | Some q \<Rightarrow>
          (case fs q of
             Some (Dir d) \<Rightarrow> Inl (Errno 21 (str_path p))
           | Some (File wr old) \<Rightarrow>
               if wr then Inr (fs(q \<mapsto> File wr (utf8 text))) else Inl (Errno 13 (str_path p))
           | Some (Link t) \<Rightarrow> Inl (Errno 40 (str_path p))
           | None \<Rightarrow>
               (case fs (butlast q) of
                  Some (Dir d) \<Rightarrow>
                    if d \<and> q \<noteq> [] then Inr (fs(q \<mapsto> File w (utf8 text)))
                    else Inl (Errno 13 (str_path p))
                | Some (File wr x) \<Rightarrow> Inl (Errno 20 (str_path p))
                | _ \<Rightarrow>
                    if under_file fs [] (butlast q) then Inl (Errno 20 (str_path p))
                    else Inl (Errno 2 (str_path p)))))"

definition read_bytes :: "filesystem \<Rightarrow> path \<Rightarrow> string option" where
  \<comment> \<open>the content of the regular file that a path leads to\<close>
  "read_bytes fs p = (case lookup fs p of Some (File w c) \<Rightarrow> Some c | _ \<Rightarrow> None)"

section \<open>Process state and environment\<close>

text \<open>
  The environment of the process: its working directory, the outcome of
  \<open>tempfile.gettempdir()\<close> (the directory, or the message of the \<open>FileNotFoundError\<close> it
  raises when it finds no usable directory), whether the umask keeps the owner's write
  bit, and the renderer.  The renderer is the Graphviz library, an external collaborator:
  \<open>pipe\<close> is the outcome of \<open>Source(dot_content).pipe()\<close> (\<open>None\<close> when it returns, the
  message when it raises) and \<open>render\<close> is the outcome of \<open>source.render(...)\<close> on a file
  system: the message when it raises, and the file system it leaves.  Both are
  arbitrary.  A \<open>render_call\<close> holds what the module passes to the renderer: the source
  text, \<open>source.format\<close>, and the arguments \<open>filename\<close>, \<open>cleanup\<close> and \<open>quiet_view\<close>.
\<close>

record render_call =
  arg_source :: string
  arg_format :: string
  arg_filename :: string
  arg_cleanup :: bool
  arg_quiet_view :: bool

record env =
  cwd :: path
  tempdir :: "string + path"
  owner_writes :: bool
  pipe :: "string \<Rightarrow> string option"
  render :: "render_call \<Rightarrow> filesystem \<Rightarrow> string option \<times> filesystem"

record state =
  output_directory :: "path option"
  disk :: filesystem
  render_calls :: "render_call list"

definition handled :: "(error \<Rightarrow> error) \<Rightarrow> (error + 'a) \<times> state \<Rightarrow> (error + 'a) \<times> state" where
  \<comment> \<open>\<open>try: ... except Exception as e: ...\<close> around the body of a tool\<close>
  "handled h r = (case r of (Inl err, s) \<Rightarrow> (Inl (h err), s) | (Inr v, s) \<Rightarrow> (Inr v, s))"

section \<open>PathGuard\<close>

definition validate_path_security ::
  "filesystem \<Rightarrow> path \<Rightarrow> string \<Rightarrow> path option \<Rightarrow> error + path" where
  \<comment> \<open>the loop over \<open>path.parts\<close> only logs a warning\<close>
  "validate_path_security fs wd file_path base_directory =
     (case resolve_str fs wd file_path of
        Inl msg \<Rightarrow> Inl (SecurityError (''Path validation failed: '' @ msg))
      | Inr path \<Rightarrow>
          if \<not> re_match DOT_BASIC_VALIDATION (str_path path)
          then Inl (SecurityError ''Path contains invalid characters'')
          else
            (case base_directory of
               None \<Rightarrow> Inr path
             | Some base \<Rightarrow>
                 (case resolve_path fs base of
                    Inl msg \<Rightarrow> Inl (SecurityError (''Path validation failed: '' @ msg))
                  | Inr base_resolved \<Rightarrow>
                      if is_relative_to path base_resolved then Inr path
                      else Inl (SecurityError
                             (''Path '' @ [CHR 0x27] @ str_path path @ [CHR 0x27]
                              @ '' is outside allowed directory ''
                              @ [CHR 0x27] @ str_path base_resolved @ [CHR 0x27])))))"

section \<open>ContentValidator\<close>

definition validate_dot_content :: "env \<Rightarrow> string \<Rightarrow> error + unit" where
  "validate_dot_content e dot_content =
     (if strip_ws dot_content = [] then Inl (DOTSyntaxError ''DOT content is empty'')
      else if \<not> re_match DOT_GRAPH_PATTERN (strip_ws dot_content)
      then Inl (DOTSyntaxError ''DOT content does not match basic graph syntax'')
      else if count_char (CHR ''{'') dot_content \<noteq> count_char (CHR ''}'') dot_content
      then Inl (DOTSyntaxError ''Unbalanced braces in DOT content'')
      else
        (case pipe e dot_content of
           Some msg \<Rightarrow> Inl (DOTSyntaxError (''Invalid DOT syntax: '' @ msg))
         | None \<Rightarrow> Inr ()))"

definition spec_outer_shape :: "string \<Rightarrow> bool" where
  \<comment> \<open>the outer shape in the words of the specification: an optional \<open>strict\<close> keyword,
      then \<open>graph\<close> or \<open>digraph\<close> in any case, an optional identifier, then a body in
      braces up to the end of the input; keywords and identifier are set apart by
      white space, which may also precede the opening brace\<close>
  "spec_outer_shape s =
     (\<exists>strict kw sep ident sep' body.
        s = strict @ kw @ sep @ ident @ sep' @ ''{'' @ body @ ''}''
        \<and> (strict = [] \<or>
            (map ascii_lower (take 6 strict) = ''strict''
             \<and> drop 6 strict \<noteq> [] \<and> list_all is_space (drop 6 strict)))
        \<and> (map ascii_lower kw = ''graph'' \<or> map ascii_lower kw = ''digraph'')
        \<and> list_all is_space sep \<and> list_all is_word ident \<and> list_all is_space sep'
        \<and> (ident = [] \<or> sep \<noteq> []))"

section \<open>OutputStore\<close>

definition ensure_output_directory :: "env \<Rightarrow> state \<Rightarrow> (error + path) \<times> state" where
  \<comment> \<open>\<open>tempfile.gettempdir()\<close> is called outside the \<open>try\<close>: its \<open>FileNotFoundError\<close> is
      not wrapped, and leaves the root unset\<close>
  "ensure_output_directory e s =
     (case (case output_directory s of
              None \<Rightarrow>
                (case tempdir e of
                   Inl msg \<Rightarrow> Inl msg
                 | Inr t \<Rightarrow> Inr (t @ [''mcp_graphviz_output'']))
            | Some d \<Rightarrow> Inr d) of
        Inl msg \<Rightarrow> (Inl (OSError msg), s)
      | Inr d \<Rightarrow>
          let s1 = s\<lparr>output_directory := Some d\<rparr>
          in case mkdir_parents (owner_writes e) (disk s1) d of
               (Some err, fs1) \<Rightarrow>
                 (Inl (FileOperationError
                         (''Failed to create output directory: '' @ str_os_error err)),
                  s1\<lparr>disk := fs1\<rparr>)
             | (None, fs1) \<Rightarrow> (Inr d, s1\<lparr>disk := fs1\<rparr>))"

section \<open>NameSanitizer\<close>

definition reserved_chars :: "char list" where
  \<comment> \<open>the class \<^verbatim>\<open>[<>:"/\\|?*]\<close>\<close>
  "reserved_chars =
     [CHR ''<'', CHR ''>'', CHR '':'', CHR 0x22, CHR ''/'', CHR 0x5C, CHR ''|'', CHR ''?'', CHR ''*'']"

definition replace_reserved :: "string \<Rightarrow> string" where
  \<comment> \<open>\<^verbatim>\<open>re.sub(r'[<>:"/\\|?*]', '_', filename)\<close>\<close>
  "replace_reserved s = map (\<lambda>c. if c \<in> set reserved_chars then CHR ''_'' else c) s"

definition sanitize_filename :: "string \<Rightarrow> string" where
  "sanitize_filename filename =
     (let filename = replace_reserved filename;
          filename = strip_chars ''. '' filename
      in if filename = [] then ''output'' else filename)"

section \<open>Tools\<close>

definition handle_set_output_location :: "error \<Rightarrow> error" where
  \<comment> \<open>lines 187-191: \<open>SecurityError\<close> and \<open>FileOperationError\<close> are raised again, anything
      else is wrapped\<close>
  "handle_set_output_location err =
     (case err of
        SecurityError m \<Rightarrow> err
      | FileOperationError m \<Rightarrow> err
      | _ \<Rightarrow> FileOperationError (''Failed to set output directory: '' @ error_message err))"

definition set_output_location_file :: "env \<Rightarrow> state \<Rightarrow> string \<Rightarrow> (error + string) \<times> state" where
  "set_output_location_file e s directory_path =
     handled handle_set_output_location
       (case validate_path_security (disk s) (cwd e) directory_path None of
          Inl err \<Rightarrow> (Inl err, s)
        | Inr validated_path \<Rightarrow>
            (case mkdir_parents (owner_writes e) (disk s) validated_path of
               (Some err, fs1) \<Rightarrow> (Inl (OSError (str_os_error err)), s\<lparr>disk := fs1\<rparr>)
             | (None, fs1) \<Rightarrow>
                 if \<not> os_access_W fs1 validated_path
                 then (Inl (FileOperationError
                         (''No write permission for directory: '' @ str_path validated_path)),
                       s\<lparr>disk := fs1\<rparr>)
                 else (Inr (''Output directory successfully set to: ''
                            @ str_path validated_path),
                       s\<lparr>disk := fs1, output_directory := Some validated_path\<rparr>)))"

definition handle_generate_dot_file :: "error \<Rightarrow> error" where
  \<comment> \<open>lines 235-239\<close>
  "handle_generate_dot_file err =
     (case err of
        DOTSyntaxError m \<Rightarrow> err
      | FileOperationError m \<Rightarrow> err
      | SecurityError m \<Rightarrow> err
      | _ \<Rightarrow> FileOperationError (''Failed to generate DOT file: '' @ error_message err))"

definition generate_dot_file :: "env \<Rightarrow> state \<Rightarrow> string \<Rightarrow> string \<Rightarrow> (error + string) \<times> state" where
  "generate_dot_file e s dot_content filename =
     handled handle_generate_dot_file
       (case validate_dot_content e dot_content of
          Inl err \<Rightarrow> (Inl err, s)
        | Inr u \<Rightarrow>
            (case ensure_output_directory e s of
               (Inl err, s1) \<Rightarrow> (Inl err, s1)
             | (Inr output_dir, s1) \<Rightarrow>
                 let clean_filename = sanitize_filename filename;
                     clean_filename = (if endswith clean_filename ''.dot'' then clean_filename
                                       else clean_filename @ ''.dot'');
                     file_path = path_join output_dir clean_filename
                 in case validate_path_security (disk s1) (cwd e) (str_path file_path)
                           (Some output_dir) of
                      Inl err \<Rightarrow> (Inl err, s1)
                    | Inr v \<Rightarrow>
                        (case write_text (owner_writes e) (disk s1) file_path dot_content of
                           Inl err \<Rightarrow>
                             (Inl (FileOperationError
                                     (''Failed to write DOT file: '' @ str_os_error err)), s1)
                         | Inr fs2 \<Rightarrow>
                             (Inr (''DOT file successfully created: '' @ str_path file_path),
                              s1\<lparr>disk := fs2\<rparr>))))"

definition dpi_hint :: "int \<Rightarrow> int \<Rightarrow> real" where
  \<comment> \<open>\<open>max(72, min(300, min(width, height) / 5))\<close>, with exact division for Python's floats\<close>
  "dpi_hint width height = max 72 (min 300 (real_of_int (min width height) / 5))"

definition handle_generate_png :: "error \<Rightarrow> error" where
  \<comment> \<open>lines 314-318\<close>
  "handle_generate_png err =
     (case err of
        DOTSyntaxError m \<Rightarrow> err
      | FileOperationError m \<Rightarrow> err
      | SecurityError m \<Rightarrow> err
      | ValueError m \<Rightarrow> err
      | _ \<Rightarrow> FileOperationError (''Failed to generate PNG: '' @ error_message err))"

definition generate_png :: "env \<Rightarrow> state \<Rightarrow> string \<Rightarrow> string \<Rightarrow> int \<Rightarrow> int \<Rightarrow> (error + string) \<times> state" where
  "generate_png e s dot_content filename width height =
     handled handle_generate_png
       (case validate_dot_content e dot_content of
          Inl err \<Rightarrow> (Inl err, s)
        | Inr u \<Rightarrow>
            if width \<le> 0 \<or> height \<le> 0
            then (Inl (ValueError ''Width and height must be positive integers''), s)
            else if width > 10000 \<or> height > 10000
            then (Inl (ValueError ''Width and height must be less than 10000 pixels''), s)
            else
              (case ensure_output_directory e s of
                 (Inl err, s1) \<Rightarrow> (Inl err, s1)
               | (Inr output_dir, s1) \<Rightarrow>
                   let clean_filename = sanitize_filename filename;
                       clean_filename = (if endswith clean_filename ''.png'' then clean_filename
                                         else clean_filename @ ''.png'');
                       file_path = path_join output_dir clean_filename
                   in case validate_path_security (disk s1) (cwd e) (str_path file_path)
                             (Some output_dir) of
                        Inl err \<Rightarrow> (Inl err, s1)
                      | Inr v \<Rightarrow>
                          let dpi = dpi_hint width height in
                          (case with_suffix file_path [] of
                             Inl msg \<Rightarrow>
                               (Inl (FileOperationError (''Failed to render PNG: '' @ msg)), s1)
                           | Inr target \<Rightarrow>
                               let call = \<lparr>arg_source = dot_content, arg_format = ''png'',
                                           arg_filename = str_path target,
                                           arg_cleanup = True, arg_quiet_view = True\<rparr>;
                                   s2 = s1\<lparr>render_calls := render_calls s1 @ [call]\<rparr>
                               in case render e call (disk s1) of
                                    (Some msg, fs2) \<Rightarrow>
                                      (Inl (FileOperationError
                                              (''Failed to render PNG: '' @ msg)),
                                       s2\<lparr>disk := fs2\<rparr>)
                                  | (None, fs2) \<Rightarrow>
                                      (case with_suffix file_path ''.png'' of
                                         Inl msg \<Rightarrow>
                                           (Inl (FileOperationError
                                                   (''Failed to render PNG: '' @ msg)),
                                            s2\<lparr>disk := fs2\<rparr>)
                                       | Inr actual_file_path \<Rightarrow>
                                           if \<not> exists_path fs2 actual_file_path
                                           then (Inl (FileOperationError
                                                   (''Failed to render PNG: ''
                                                    @ ''PNG file was not created successfully'')),
                                                 s2\<lparr>disk := fs2\<rparr>)
                                           else (Inr (''PNG file successfully created: ''
                                                      @ str_path actual_file_path
                                                      @ '' ('' @ str_int width @ ''x''
                                                      @ str_int height @ '' target size)''),
                                                 s2\<lparr>disk := fs2\<rparr>)))))"

definition render_stage :: "env \<Rightarrow> state \<Rightarrow> string \<Rightarrow> string \<Rightarrow> (error + path) \<times> state" where
  \<comment> \<open>the steps of \<open>generate_png\<close> between the dimension check and the final message,
      used to reason about them as a whole; the unused \<open>dpi\<close> is left out\<close>
  "render_stage e s dot_content filename =
     (case ensure_output_directory e s of
        (Inl err, s1) \<Rightarrow> (Inl err, s1)
      | (Inr output_dir, s1) \<Rightarrow>
          let clean_filename = sanitize_filename filename;
              clean_filename = (if endswith clean_filename ''.png'' then clean_filename
                                else clean_filename @ ''.png'');
              file_path = path_join output_dir clean_filename
          in case validate_path_security (disk s1) (cwd e) (str_path file_path)
                    (Some output_dir) of
               Inl err \<Rightarrow> (Inl err, s1)
             | Inr v \<Rightarrow>
                 (case with_suffix file_path [] of
                    Inl msg \<Rightarrow> (Inl (FileOperationError (''Failed to render PNG: '' @ msg)), s1)
                  | Inr target \<Rightarrow>
                      let call = \<lparr>arg_source = dot_content, arg_format = ''png'',
                                  arg_filename = str_path target,
                                  arg_cleanup = True, arg_quiet_view = True\<rparr>;
                          s2 = s1\<lparr>render_calls := render_calls s1 @ [call]\<rparr>
                      in case render e call (disk s1) of
                           (Some msg, fs2) \<Rightarrow>
                             (Inl (FileOperationError (''Failed to render PNG: '' @ msg)),
                              s2\<lparr>disk := fs2\<rparr>)
                         | (None, fs2) \<Rightarrow>
                             (case with_suffix file_path ''.png'' of
                                Inl msg \<Rightarrow>
                                  (Inl (FileOperationError (''Failed to render PNG: '' @ msg)),
                                   s2\<lparr>disk := fs2\<rparr>)
                              | Inr actual_file_path \<Rightarrow>
                                  if \<not> exists_path fs2 actual_file_path
                                  then (Inl (FileOperationError
                                          (''Failed to render PNG: ''
                                           @ ''PNG file was not created successfully'')),
                                        s2\<lparr>disk := fs2\<rparr>)
                                  else (Inr actual_file_path, s2\<lparr>disk := fs2\<rparr>))))"

section \<open>An example environment\<close>

text \<open>
  A small file system, environments and an initial state on which the operations are
  evaluated.  \<open>/tmp\<close>, \<open>/etc\<close>, \<open>/srv\<close>, \<open>/srv/out\<close>, \<open>/srv/jail\<close> and \<open>/srv/jail/in\<close> are
  writable directories, \<open>/srv/ro\<close> is a directory the process may not write to;
  \<open>/srv/out/link\<close> and \<open>/srv/jail/sub\<close> are symbolic links to \<open>/etc\<close>, \<open>/srv/out/here\<close> is
  one to \<open>sub\<close>, \<open>/srv/etc\<close> one to \<open>jail/in\<close>, and \<open>/srv/loop\<close> one to itself; \<open>/var\<close>
  does not exist.  The example renderer accepts every description and writes the bytes
  \<open>PNG\<close> to the file name it is given, extended by the format.  In \<open>env_umask\<close> the umask
  takes the owner's write bit away, in \<open>env_var\<close> the temporary directory is the missing
  \<open>/var/tmp\<close>, and in \<open>env_notmp\<close> the platform has no usable temporary directory.
\<close>

definition disk0 :: filesystem where
  "disk0 = map_of [([], Dir True), ([''tmp''], Dir True), ([''etc''], Dir True),
                   ([''srv''], Dir True), ([''srv'', ''ro''], Dir False),
                   ([''srv'', ''out''], Dir True),
                   ([''srv'', ''out'', ''link''], Link ''/etc''),
                   ([''srv'', ''out'', ''here''], Link ''sub''),
                   ([''srv'', ''jail''], Dir True),
                   ([''srv'', ''jail'', ''in''], Dir True),
                   ([''srv'', ''jail'', ''sub''], Link ''/etc''),
                   ([''srv'', ''etc''], Link ''jail/in''),
                   ([''srv'', ''loop''], Link ''loop'')]"

definition env0 :: env where
  "env0 = \<lparr>cwd = [''srv''], tempdir = Inr [''tmp''], owner_writes = True, pipe = (\<lambda>d. None),
           render = (\<lambda>call fs.
             (None, fs(path_parts (arg_filename call @ ''.'' @ arg_format call)
                         \<mapsto> File True ''PNG'')))\<rparr>"

definition env_umask :: env where
  "env_umask = env0\<lparr>owner_writes := False\<rparr>"



definition state0 :: state where
  "state0 = \<lparr>output_directory = None, disk = disk0, render_calls = []\<rparr>"

section \<open>Properties of the name sanitizer\<close>

lemma dropWhile_hd_fixed: "xs \<noteq> [] \<Longrightarrow> \<not> P (hd xs) \<Longrightarrow> dropWhile P xs = xs"
  by (cases xs) auto

lemma rev_dropWhile_rev_hd:
  assumes "dropWhile P (rev a) \<noteq> []"
  shows "hd (rev (dropWhile P (rev a))) = hd a"
proof -
  have "rev (takeWhile P (rev a) @ dropWhile P (rev a)) = a"
    by (simp only: takeWhile_dropWhile_id rev_rev_ident)
  then have "rev (dropWhile P (rev a)) @ rev (takeWhile P (rev a)) = a"
    by (simp only: rev_append)
  then have "hd a = hd (rev (dropWhile P (rev a)) @ rev (takeWhile P (rev a)))"
    by (simp only:)
  also have "\<dots> = hd (rev (dropWhile P (rev a)))"
    using assms by (simp only: hd_append2 rev_is_Nil_conv not_False_eq_True)
  finally show ?thesis by (simp only:)
qed

lemma strip_by_ends:
  assumes "strip_by P s \<noteq> []"
  shows "\<not> P (hd (strip_by P s))" and "\<not> P (last (strip_by P s))"
proof -
  define a where "a = dropWhile P s"
  define b where "b = dropWhile P (rev a)"
  have sc: "strip_by P s = rev b"
    by (simp only: strip_by_def a_def b_def)
  from assms have b: "b \<noteq> []" by (simp only: sc rev_is_Nil_conv not_False_eq_True)
  have a: "a \<noteq> []"
  proof
    assume "a = []"
    then have "b = []" by (simp add: b_def)
    with b show False by simp
  qed
  from b have "\<not> P (hd b)" unfolding b_def by (rule hd_dropWhile)
  moreover have "last (rev b) = hd b" using b by (simp only: last_rev)
  ultimately show "\<not> P (last (strip_by P s))"
    by (simp add: sc)
  from a have "\<not> P (hd a)" unfolding a_def by (rule hd_dropWhile)
  moreover have "hd (rev b) = hd a"
    using b unfolding b_def by (rule rev_dropWhile_rev_hd)
  ultimately show "\<not> P (hd (strip_by P s))"
    by (simp add: sc)
qed

lemma strip_by_fixed:
  assumes "s \<noteq> []" "\<not> P (hd s)" "\<not> P (last s)"
  shows "strip_by P s = s"
proof -
  have 1: "dropWhile P s = s"
    using assms by (simp add: dropWhile_hd_fixed)
  have 2: "dropWhile P (rev s) = rev s"
    using assms by (simp add: dropWhile_hd_fixed hd_rev)
  show ?thesis by (simp only: strip_by_def 1 2 rev_rev_ident)
qed

lemma strip_by_Nil: "strip_by P [] = []"
  by (simp add: strip_by_def)

lemma strip_by_idem: "strip_by P (strip_by P s) = strip_by P s"
proof (cases "strip_by P s = []")
  case True
  then show ?thesis by (simp only: strip_by_Nil)
next
  case False
  show ?thesis
    using False strip_by_ends(1) [OF False] strip_by_ends(2) [OF False]
    by (rule strip_by_fixed)
qed

lemma strip_by_subset: "set (strip_by P s) \<subseteq> set s"
proof
  fix x assume "x \<in> set (strip_by P s)"
  then have "x \<in> set (dropWhile P (rev (dropWhile P s)))"
    by (simp only: strip_by_def set_rev)
  then have "x \<in> set (rev (dropWhile P s))"
    by (rule set_dropWhileD)
  then have "x \<in> set (dropWhile P s)"
    by (simp only: set_rev)
  then show "x \<in> set s" by (rule set_dropWhileD)
qed

lemma underscore_not_reserved: "CHR ''_'' \<notin> set reserved_chars"
  by (simp add: reserved_chars_def)

lemma replace_reserved_clean: "c \<in> set (replace_reserved s) \<Longrightarrow> c \<notin> set reserved_chars"
  using underscore_not_reserved by (auto simp: replace_reserved_def split: if_splits)

lemma replace_reserved_fixed:
  "\<forall>c\<in>set s. c \<notin> set reserved_chars \<Longrightarrow> replace_reserved s = s"
  by (induction s) (simp_all add: replace_reserved_def)

lemma output_clean: "c \<in> set ''output'' \<Longrightarrow> c \<notin> set reserved_chars"
  by (auto simp: reserved_chars_def)

lemma sanitize_filename_cases:
  "sanitize_filename x = ''output'' \<or>
   (sanitize_filename x = strip_chars ''. '' (replace_reserved x) \<and> strip_chars ''. '' (replace_reserved x) \<noteq> [])"
  by (simp add: sanitize_filename_def Let_def)

lemma sanitize_filename_clean: "c \<in> set (sanitize_filename x) \<Longrightarrow> c \<notin> set reserved_chars"
proof -
  assume c: "c \<in> set (sanitize_filename x)"
  from sanitize_filename_cases [of x] show ?thesis
  proof
    assume "sanitize_filename x = ''output''"
    with c show ?thesis using output_clean by simp
  next
    assume "sanitize_filename x = strip_chars ''. '' (replace_reserved x) \<and> strip_chars ''. '' (replace_reserved x) \<noteq> []"
    with c have "c \<in> set (strip_chars ''. '' (replace_reserved x))" by simp
    then have "c \<in> set (replace_reserved x)"
      unfolding strip_chars_def using strip_by_subset by blast
    then show ?thesis by (rule replace_reserved_clean)
  qed
qed

lemma strip_output: "strip_chars ''. '' ''output'' = ''output''"
  by (simp add: strip_chars_def strip_by_def)

lemma strip_chars_idem: "strip_chars cs (strip_chars cs s) = strip_chars cs s"
  by (simp only: strip_chars_def strip_by_idem)

lemma sanitize_filename_stripped: "strip_chars ''. '' (sanitize_filename x) = sanitize_filename x"
  using sanitize_filename_cases [of x] strip_output strip_chars_idem by metis

lemma sanitize_filename_nonempty: "sanitize_filename x \<noteq> []"
  by (simp add: sanitize_filename_def Let_def)

lemma sanitize_filename_ends:
  "hd (sanitize_filename x) \<noteq> CHR ''.''" "last (sanitize_filename x) \<noteq> CHR ''.''"
proof -
  have "strip_by (\<lambda>c. c \<in> set ''. '') (sanitize_filename x) \<noteq> []"
    using sanitize_filename_stripped [of x] sanitize_filename_nonempty [of x]
    by (simp add: strip_chars_def)
  from strip_by_ends [OF this]
  have "hd (sanitize_filename x) \<notin> set ''. ''" "last (sanitize_filename x) \<notin> set ''. ''"
    using sanitize_filename_stripped [of x] by (simp_all add: strip_chars_def)
  then show "hd (sanitize_filename x) \<noteq> CHR ''.''" "last (sanitize_filename x) \<noteq> CHR ''.''"
    by simp_all
qed

text \<open>
  C4: \<open>sanitize_filename\<close> is total (a HOL function with no error branch) and
  idempotent, its result is never empty, and both the empty name and the name \<open>...\<close>
  give the fallback name \<open>output\<close>.
\<close>

theorem sanitize_filename_idempotent:
  "sanitize_filename (sanitize_filename x) = sanitize_filename x
   \<and> sanitize_filename x \<noteq> []
   \<and> sanitize_filename '''' = ''output''
   \<and> sanitize_filename ''...'' = ''output''"
proof -
  let ?y = "sanitize_filename x"
  have m: "replace_reserved ?y = ?y"
    by (rule replace_reserved_fixed) (simp add: sanitize_filename_clean)
  have idem: "sanitize_filename ?y = ?y"
    using sanitize_filename_nonempty [of x]
    by (subst sanitize_filename_def) (simp add: Let_def m sanitize_filename_stripped)
  have e1: "sanitize_filename '''' = ''output''"
    by (simp add: sanitize_filename_def replace_reserved_def strip_chars_def strip_by_def)
  have e2: "sanitize_filename ''...'' = ''output''"
    by (simp add: sanitize_filename_def replace_reserved_def strip_chars_def strip_by_def
        reserved_chars_def)
  from idem sanitize_filename_nonempty e1 e2 show ?thesis by simp
qed

section \<open>The matcher decides the language of the pattern\<close>

lemma conc_empty [simp]: "conc {} B = {}" "conc A {} = {}"
  by (auto simp: conc_def)

lemma conc_unit [simp]: "conc {[]} B = B" "conc A {[]} = A"
  by (auto simp: conc_def)

lemma Nil_in_conc: "[] \<in> conc A B \<longleftrightarrow> [] \<in> A \<and> [] \<in> B"
  by (auto simp: conc_def)

lemma nullable_lang: "nullable r \<longleftrightarrow> [] \<in> lang r"
  by (induction r) (auto simp: Nil_in_conc star_empty)

lemma lang_alt: "lang (alt r s) = lang r \<union> lang s"
  by (induction r s rule: alt.induct) auto

lemma lang_seq: "lang (seq r s) = conc (lang r) (lang s)"
  by (induction r s rule: seq.induct) auto

lemma left_quot_simps [simp]:
  "left_quot c {} = {}"
  "left_quot c {[]} = {}"
  "left_quot c (A \<union> B) = left_quot c A \<union> left_quot c B"
  by (auto simp: left_quot_def)

lemma left_quot_conc:
  "left_quot c (conc A B) = conc (left_quot c A) B \<union> (if [] \<in> A then left_quot c B else {})"
proof -
  have "w \<in> left_quot c (conc A B) \<longleftrightarrow>
        w \<in> conc (left_quot c A) B \<or> ([] \<in> A \<and> w \<in> left_quot c B)" for w
  proof
    assume "w \<in> left_quot c (conc A B)"
    then obtain u v where uv: "c # w = u @ v" "u \<in> A" "v \<in> B"
      by (auto simp: left_quot_def conc_def)
    show "w \<in> conc (left_quot c A) B \<or> ([] \<in> A \<and> w \<in> left_quot c B)"
    proof (cases u)
      case Nil
      with uv show ?thesis by (simp add: left_quot_def)
    next
      case (Cons a u')
      with uv have "a = c" "w = u' @ v" "c # u' \<in> A" by simp_all
      with uv(3) show ?thesis by (auto simp: left_quot_def conc_def)
    qed
  next
    assume "w \<in> conc (left_quot c A) B \<or> ([] \<in> A \<and> w \<in> left_quot c B)"
    then show "w \<in> left_quot c (conc A B)"
    proof
      assume "w \<in> conc (left_quot c A) B"
      then obtain u v where "w = u @ v" "c # u \<in> A" "v \<in> B"
        by (auto simp: left_quot_def conc_def)
      then have "c # w = (c # u) @ v \<and> c # u \<in> A \<and> v \<in> B" by simp
      then show ?thesis unfolding left_quot_def conc_def by blast
    next
      assume "[] \<in> A \<and> w \<in> left_quot c B"
      then have "c # w = [] @ (c # w) \<and> [] \<in> A \<and> c # w \<in> B"
        by (simp add: left_quot_def)
      then show ?thesis unfolding left_quot_def conc_def by blast
    qed
  qed
  then show ?thesis by auto
qed

lemma star_unfold_front:
  "x \<in> star A \<Longrightarrow> x = c # w \<Longrightarrow> \<exists>u v. w = u @ v \<and> c # u \<in> A \<and> v \<in> star A"
proof (induction arbitrary: w rule: star.induct)
  case star_empty
  then show ?case by simp
next
  case (star_step u v)
  show ?case
  proof (cases u)
    case Nil
    with star_step show ?thesis by simp
  next
    case (Cons a u')
    with star_step.prems have "a = c" "w = u' @ v" by simp_all
    with Cons star_step.hyps show ?thesis by blast
  qed
qed

lemma left_quot_star: "left_quot c (star A) = conc (left_quot c A) (star A)"
proof (rule set_eqI)
  fix w
  show "w \<in> left_quot c (star A) \<longleftrightarrow> w \<in> conc (left_quot c A) (star A)"
  proof
    assume "w \<in> left_quot c (star A)"
    then have "c # w \<in> star A" by (simp add: left_quot_def)
    then obtain u v where "w = u @ v" "c # u \<in> A" "v \<in> star A"
      using star_unfold_front by blast
    then show "w \<in> conc (left_quot c A) (star A)"
      unfolding conc_def left_quot_def by blast
  next
    assume "w \<in> conc (left_quot c A) (star A)"
    then obtain u v where uv: "w = u @ v" "c # u \<in> A" "v \<in> star A"
      unfolding conc_def left_quot_def by blast
    then have "(c # u) @ v \<in> star A" by (intro star_step)
    with uv(1) show "w \<in> left_quot c (star A)" by (simp add: left_quot_def)
  qed
qed

lemma left_quot_Chr: "left_quot c (lang (Chr k)) = (if cmatch k c then {[]} else {})"
  by (auto simp: left_quot_def)

lemma lang_deriv: "lang (deriv c r) = left_quot c (lang r)"
proof (induction r)
  case (Chr k)
  show ?case by (simp only: left_quot_Chr deriv.simps) simp
next
  case (Seq r s)
  then show ?case
    by (simp add: lang_alt lang_seq left_quot_conc nullable_lang)
next
  case (Star r)
  then show ?case by (simp add: lang_seq left_quot_star)
qed (simp_all add: lang_alt)

lemma re_match_lang: "re_match r s \<longleftrightarrow> s \<in> lang r"
  by (induction s arbitrary: r) (simp_all add: nullable_lang lang_deriv left_quot_def)

lemma star_class_all: "s \<in> star {[c] | c. P c} \<Longrightarrow> \<forall>c\<in>set s. P c"
  by (induction rule: star.induct) auto

lemma all_star_class: "\<forall>c\<in>set s. P c \<Longrightarrow> s \<in> star {[c] | c. P c}"
proof (induction s)
  case Nil
  show ?case by (rule star_empty)
next
  case (Cons a s)
  then have "[a] \<in> {[c] | c. P c}" and "s \<in> star {[c] | c. P c}" by simp_all
  then have "[a] @ s \<in> star {[c] | c. P c}" by (rule star_step)
  then show ?case by simp
qed

lemma lang_dollar: "lang dollar = {[CHR 0x0A], []}"
  unfolding dollar_def opt_def by auto

lemma lang_class_dollar:
  assumes nl: "CHR 0x0A \<notin> set cs"
  shows "s \<in> lang (Seq (Star (Chr (NoneOf cs))) dollar) \<longleftrightarrow> (\<forall>c\<in>set s. c \<notin> set cs)"
proof -
  define A where "A = star {[c] | c. c \<notin> set cs}"
  have L: "lang (Seq (Star (Chr (NoneOf cs))) dollar) = conc A {[CHR 0x0A], []}"
    by (simp add: lang_dollar A_def)
  show ?thesis
  proof
    assume "s \<in> lang (Seq (Star (Chr (NoneOf cs))) dollar)"
    then have "s \<in> conc A {[CHR 0x0A], []}" by (simp only: L)
    then obtain u v where uv: "s = u @ v" "u \<in> A" "v = [CHR 0x0A] \<or> v = []"
      unfolding conc_def by blast
    from uv(2) have "\<forall>c\<in>set u. c \<notin> set cs"
      unfolding A_def by (rule star_class_all)
    with uv(1,3) nl show "\<forall>c\<in>set s. c \<notin> set cs" by auto
  next
    assume "\<forall>c\<in>set s. c \<notin> set cs"
    then have "s \<in> A" unfolding A_def by (rule all_star_class)
    then have "s @ [] \<in> conc A {[CHR 0x0A], []}"
      unfolding conc_def by blast
    then show "s \<in> lang (Seq (Star (Chr (NoneOf cs))) dollar)" by (simp only: L append_Nil2)
  qed
qed

text \<open>The pattern \<open>DOT_BASIC_VALIDATION\<close> matches the strings without a forbidden character.\<close>

lemma DOT_BASIC_VALIDATION_iff:
  "re_match DOT_BASIC_VALIDATION s \<longleftrightarrow> (\<forall>c\<in>set s. c \<notin> set ''<>|*?'')"
proof -
  have "CHR 0x0A \<notin> set ''<>|*?''" by simp
  from lang_class_dollar [OF this] show ?thesis
    by (simp only: re_match_lang DOT_BASIC_VALIDATION_def)
qed

section \<open>Paths and their strings\<close>















section \<open>Canonical paths\<close>

lemma realpath_Nil: "realpath fs acc [] = Some acc"
  by (subst realpath.simps) simp

lemma realpath_Cons:
  "realpath fs acc (c # cs) =
     (if c = [] \<or> c = ''.'' then realpath fs acc cs
      else if c = ''..'' then realpath fs (butlast acc) cs
      else
        (case fs (acc @ [c]) of
           Some (Link target) \<Rightarrow>
             realpath fs (if is_absolute target then [] else acc) (path_parts target @ cs)
         | _ \<Rightarrow> realpath fs (acc @ [c]) cs))"
  by (subst realpath.simps) simp












lemma realpath_links_le:
  "realpath fs acc p = Some r \<Longrightarrow>
   (\<forall>k t. (fs k = Some (Link t)) = (fs' k = Some (Link t))) \<Longrightarrow>
   realpath fs' acc p = Some r"
proof (induction rule: realpath.raw_induct [rotated 1, consumes 1])
  case (1 realpath' fs acc p r)
  note ih = 1(1) [OF _ 1(3)]
  show ?case
  proof (cases p)
    case Nil
    with 1(2) show ?thesis by (simp add: realpath_Nil)
  next
    case (Cons c cs)
    show ?thesis
    proof (cases "is_link fs (acc @ [c])")
      case True
      then obtain t where t: "fs (acc @ [c]) = Some (Link t)"
        by (auto simp: is_link_def split: option.splits node.splits)
      with 1(3) have t': "fs' (acc @ [c]) = Some (Link t)" by simp
      from 1(2) t t' show ?thesis
        by (auto simp: Cons realpath_Cons ih split: if_splits)
    next
      case False
      then have nl: "\<And>t. fs (acc @ [c]) \<noteq> Some (Link t)"
        by (auto simp: is_link_def)
      with 1(3) have nl': "\<And>t. fs' (acc @ [c]) \<noteq> Some (Link t)" by simp
      from 1(2) nl nl' show ?thesis
        by (auto simp: Cons realpath_Cons ih split: if_splits option.splits node.splits)
    qed
  qed
qed

lemma realpath_links:
  assumes "\<forall>k t. (fs k = Some (Link t)) = (fs' k = Some (Link t))"
  shows "realpath fs acc p = realpath fs' acc p"
proof -
  from assms have sym: "\<forall>k t. (fs' k = Some (Link t)) = (fs k = Some (Link t))" by simp
  show ?thesis
  proof (cases "realpath fs acc p")
    case None
    show ?thesis
    proof (cases "realpath fs' acc p")
      case None
      with \<open>realpath fs acc p = None\<close> show ?thesis by simp
    next
      case (Some r)
      from realpath_links_le [OF Some sym] None show ?thesis by simp
    qed
  next
    case (Some r)
    from realpath_links_le [OF Some assms] Some show ?thesis by simp
  qed
qed

lemma realpath_update:
  assumes "\<not> is_link fs k"
  shows "realpath (fs(k \<mapsto> Dir w)) acc p = realpath fs acc p"
    and "realpath (fs(k \<mapsto> File w c)) acc p = realpath fs acc p"
proof -
  from assms have nl: "\<And>t. fs k \<noteq> Some (Link t)" by (auto simp: is_link_def)
  show "realpath (fs(k \<mapsto> Dir w)) acc p = realpath fs acc p"
    by (rule realpath_links) (use nl in auto)
  show "realpath (fs(k \<mapsto> File w c)) acc p = realpath fs acc p"
    by (rule realpath_links) (use nl in auto)
qed

section \<open>PathGuard\<close>

lemma validate_path_security_error:
  "validate_path_security fs wd P b = Inl err \<Longrightarrow> \<exists>msg. err = SecurityError msg"
  by (auto simp: validate_path_security_def split: sum.splits if_splits option.splits)


lemma validate_path_security_None_iff:
  "validate_path_security fs wd P None = Inr c \<longleftrightarrow>
     resolve_str fs wd P = Inr c \<and> (\<forall>x\<in>set (str_path c). x \<notin> set ''<>|*?'')"
  unfolding validate_path_security_def DOT_BASIC_VALIDATION_iff
  by (auto split: sum.splits)





section \<open>PathGuard: confinement to the root\<close>







lemmas path_eval =
  validate_path_security_def resolve_str_def resolve_path_def realpath_Nil realpath_Cons
  path_parts_def is_absolute_def str_path_def is_relative_to_def disk0_def
  DOT_BASIC_VALIDATION_def dollar_def opt_def







section \<open>The handlers of the tools\<close>

lemma handled_Inl: "handled h (Inl err, s) = (Inl (h err), s)"
  by (simp add: handled_def)

lemma handled_Inr: "handled h (Inr v, s) = (Inr v, s)"
  by (simp add: handled_def)

lemma snd_handled: "snd (handled h r) = snd r"
  by (cases r) (simp add: handled_def split: sum.splits)

lemma handled_is_error: "(\<exists>err. fst (handled h r) = Inl err) \<longleftrightarrow> (\<exists>err. fst r = Inl err)"
  by (cases r) (auto simp: handled_def split: sum.splits)

lemma handle_generate_dot_file_simps:
  "handle_generate_dot_file (DOTSyntaxError m) = DOTSyntaxError m"
  "handle_generate_dot_file (FileOperationError m) = FileOperationError m"
  "handle_generate_dot_file (SecurityError m) = SecurityError m"
  "handle_generate_dot_file (ValueError m)
     = FileOperationError (''Failed to generate DOT file: '' @ m)"
  "handle_generate_dot_file (OSError m)
     = FileOperationError (''Failed to generate DOT file: '' @ m)"
  by (simp_all add: handle_generate_dot_file_def)

lemma handle_generate_png_simps:
  "handle_generate_png (DOTSyntaxError m) = DOTSyntaxError m"
  "handle_generate_png (FileOperationError m) = FileOperationError m"
  "handle_generate_png (SecurityError m) = SecurityError m"
  "handle_generate_png (ValueError m) = ValueError m"
  "handle_generate_png (OSError m) = FileOperationError (''Failed to generate PNG: '' @ m)"
  by (simp_all add: handle_generate_png_def)

lemma handle_generate_png_ValueError:
  "handle_generate_png err = ValueError m \<longleftrightarrow> err = ValueError m"
  by (cases err) (simp_all add: handle_generate_png_def)

lemmas handler_simps =
  handled_Inl handled_Inr handle_generate_dot_file_simps handle_generate_png_simps

section \<open>OutputStore: setting the root\<close>

lemma set_output_location_file_error:
  assumes "set_output_location_file e s p = (Inl err, s')"
  shows "output_directory s' = output_directory s"
    and "\<exists>msg. err = SecurityError msg \<or> err = FileOperationError msg"
proof -
  show "output_directory s' = output_directory s"
    using assms unfolding set_output_location_file_def handled_def
    by (auto split: sum.splits prod.splits option.splits if_splits)
  show "\<exists>msg. err = SecurityError msg \<or> err = FileOperationError msg"
    using assms unfolding set_output_location_file_def handled_def
      handle_set_output_location_def
    by (auto split: sum.splits prod.splits option.splits if_splits error.splits)
qed

lemma set_output_location_file_success:
  assumes "set_output_location_file e s p = (Inr m, s')"
  shows "\<exists>v. validate_path_security (disk s) (cwd e) p None = Inr v
             \<and> mkdir_parents (owner_writes e) (disk s) v = (None, disk s')
             \<and> os_access_W (disk s') v
             \<and> output_directory s' = Some v"
  using assms unfolding set_output_location_file_def handled_def
  by (auto split: sum.splits prod.splits option.splits if_splits)

lemmas os_eval =
  mkdir_parents.simps os_mkdir_def dir_of_def lookup_def is_dir_def os_access_W_def
  exists_path_def realpath_Nil realpath_Cons str_path_def strerror_def

lemma mkdir_parents_disk0_ro:
  "mkdir_parents w disk0 [''srv'', ''ro''] = (None, disk0)"
  by (simp add: os_eval disk0_def)

lemma mkdir_parents_disk0_new:
  "mkdir_parents w disk0 [''srv'', ''new''] = (None, disk0([''srv'', ''new''] \<mapsto> Dir w))"
  by (simp add: os_eval disk0_def)

lemma validate_srv:
  "validate_path_security disk0 [''srv''] ''/srv/ro'' None = Inr [''srv'', ''ro'']"
  "validate_path_security disk0 [''srv''] ''new'' None = Inr [''srv'', ''new'']"
  by (simp_all add: path_eval)

lemma srv_not_writable:
  "\<not> os_access_W disk0 [''srv'', ''ro'']"
  "\<not> os_access_W (disk0([''srv'', ''new''] \<mapsto> Dir False)) [''srv'', ''new'']"
  by (simp_all add: os_eval disk0_def)

lemma set_output_location_file_srv_ro:
  "set_output_location_file env0 state0 ''/srv/ro''
     = (Inl (FileOperationError ''No write permission for directory: /srv/ro''), state0)"
proof -
  have "cwd env0 = [''srv'']" "disk state0 = disk0" "state0\<lparr>disk := disk0\<rparr> = state0"
    by (simp_all add: env0_def state0_def)
  then show ?thesis
    unfolding set_output_location_file_def handled_def handle_set_output_location_def
    by (simp add: validate_srv mkdir_parents_disk0_ro srv_not_writable str_path_def)
qed

text \<open>
  C6: when \<open>set_output_location_file\<close> signals an error, which is a \<open>SecurityError\<close> or a
  \<open>FileOperationError\<close>, the output root is what it was before the call; when it
  succeeds, the path was validated, the directory was created and found writable, and
  the root is the validated path.
\<close>

theorem set_output_location_file_atomic:
  "(set_output_location_file e s p = (Inl err, s') \<longrightarrow>
      output_directory s' = output_directory s
      \<and> (\<exists>msg. err = SecurityError msg \<or> err = FileOperationError msg))
   \<and> (set_output_location_file e s p = (Inr m, s') \<longrightarrow>
      (\<exists>v. validate_path_security (disk s) (cwd e) p None = Inr v
            \<and> mkdir_parents (owner_writes e) (disk s) v = (None, disk s')
            \<and> os_access_W (disk s') v
            \<and> output_directory s' = Some v))"
  using set_output_location_file_error [of e s p err s']
    set_output_location_file_success [of e s p m s']
  by blast

theorem set_output_location_file_atomic_witness:
  "set_output_location_file env0 state0 ''/srv/ro''
     = (Inl (FileOperationError ''No write permission for directory: /srv/ro''), state0)
   \<and> output_directory state0 = None"
  using set_output_location_file_atomic [of env0 state0 "''/srv/ro''"
      "FileOperationError ''No write permission for directory: /srv/ro''" state0]
    set_output_location_file_srv_ro
  by (simp add: state0_def)

text \<open>
  C7, as amended: when the path passes validation and the directory exists or is created,
  but the process may not write to it, \<open>set_output_location_file\<close> signals
  \<open>FileOperationError\<close>, with the message \<open>No write permission for directory\<close> and the
  path.
\<close>

theorem set_output_location_file_not_writable:
  assumes "validate_path_security (disk s) (cwd e) p None = Inr v"
    and "mkdir_parents (owner_writes e) (disk s) v = (None, fs1)"
    and "\<not> os_access_W fs1 v"
  shows "set_output_location_file e s p
           = (Inl (FileOperationError (''No write permission for directory: '' @ str_path v)),
              s\<lparr>disk := fs1\<rparr>)"
  using assms
  unfolding set_output_location_file_def handled_def handle_set_output_location_def
  by simp

text \<open>
  The theorem on a directory that exists, \<open>/srv/ro\<close>, and on one that is created,
  \<open>/srv/new\<close> under a umask that takes the owner's write bit away.
\<close>

theorem set_output_location_file_not_writable_witness:
  "validate_path_security (disk state0) (cwd env0) ''/srv/ro'' None = Inr [''srv'', ''ro'']
   \<and> mkdir_parents (owner_writes env0) (disk state0) [''srv'', ''ro''] = (None, disk0)
   \<and> \<not> os_access_W disk0 [''srv'', ''ro'']
   \<and> set_output_location_file env0 state0 ''/srv/ro''
       = (Inl (FileOperationError (''No write permission for directory: ''
                                    @ str_path [''srv'', ''ro''])),
          state0\<lparr>disk := disk0\<rparr>)
   \<and> validate_path_security (disk state0) (cwd env_umask) ''new'' None = Inr [''srv'', ''new'']
   \<and> mkdir_parents (owner_writes env_umask) (disk state0) [''srv'', ''new'']
       = (None, disk0([''srv'', ''new''] \<mapsto> Dir False))
   \<and> \<not> os_access_W (disk0([''srv'', ''new''] \<mapsto> Dir False)) [''srv'', ''new'']
   \<and> set_output_location_file env_umask state0 ''new''
       = (Inl (FileOperationError (''No write permission for directory: ''
                                    @ str_path [''srv'', ''new''])),
          state0\<lparr>disk := disk0([''srv'', ''new''] \<mapsto> Dir False)\<rparr>)"
proof -
  have v: "validate_path_security (disk state0) (cwd env0) ''/srv/ro'' None
             = Inr [''srv'', ''ro'']"
    using validate_srv(1) by (simp add: env0_def state0_def)
  have m: "mkdir_parents (owner_writes env0) (disk state0) [''srv'', ''ro''] = (None, disk0)"
    using mkdir_parents_disk0_ro by (simp add: state0_def)
  have v': "validate_path_security (disk state0) (cwd env_umask) ''new'' None
              = Inr [''srv'', ''new'']"
    using validate_srv(2) by (simp add: env_umask_def env0_def state0_def)
  have m': "mkdir_parents (owner_writes env_umask) (disk state0) [''srv'', ''new'']
              = (None, disk0([''srv'', ''new''] \<mapsto> Dir False))"
    using mkdir_parents_disk0_new [of False] by (simp add: env_umask_def env0_def state0_def)
  from v m srv_not_writable(1) v' m' srv_not_writable(2)
    set_output_location_file_not_writable [OF v m srv_not_writable(1)]
    set_output_location_file_not_writable [OF v' m' srv_not_writable(2)]
  show ?thesis by (intro conjI)
qed

text \<open>
  On the read-only directory \<open>/srv/ro\<close>, which passes validation and exists, and on the
  directory \<open>/srv/new\<close>, which passes validation and is created without the write bit,
  the error is a \<open>FileOperationError\<close>, not a \<open>SecurityError\<close>.
\<close>

theorem set_output_location_file_counterexample:
  "validate_path_security (disk state0) (cwd env0) ''/srv/ro'' None = Inr [''srv'', ''ro'']
   \<and> is_dir (disk state0) [''srv'', ''ro'']
   \<and> \<not> os_access_W (disk state0) [''srv'', ''ro'']
   \<and> fst (set_output_location_file env0 state0 ''/srv/ro'')
       = Inl (FileOperationError ''No write permission for directory: /srv/ro'')
   \<and> validate_path_security (disk state0) (cwd env_umask) ''new'' None = Inr [''srv'', ''new'']
   \<and> \<not> exists_path (disk state0) [''srv'', ''new'']
   \<and> is_dir (disk (snd (set_output_location_file env_umask state0 ''new''))) [''srv'', ''new'']
   \<and> \<not> os_access_W (disk (snd (set_output_location_file env_umask state0 ''new'')))
          [''srv'', ''new'']
   \<and> fst (set_output_location_file env_umask state0 ''new'')
       = Inl (FileOperationError ''No write permission for directory: /srv/new'')"
proof -
  have v: "validate_path_security (disk state0) (cwd env0) ''/srv/ro'' None
             = Inr [''srv'', ''ro'']"
    using validate_srv(1) by (simp add: env0_def state0_def)
  have d: "is_dir (disk state0) [''srv'', ''ro'']"
    by (simp add: os_eval state0_def disk0_def)
  have w: "\<not> os_access_W (disk state0) [''srv'', ''ro'']"
    using srv_not_writable(1) by (simp add: state0_def)
  have r: "fst (set_output_location_file env0 state0 ''/srv/ro'')
             = Inl (FileOperationError ''No write permission for directory: /srv/ro'')"
    by (simp add: set_output_location_file_srv_ro)
  have v': "validate_path_security (disk state0) (cwd env_umask) ''new'' None
              = Inr [''srv'', ''new'']"
    using validate_srv(2) by (simp add: env_umask_def env0_def state0_def)
  have n: "\<not> exists_path (disk state0) [''srv'', ''new'']"
    by (simp add: os_eval state0_def disk0_def)
  have "cwd env_umask = [''srv'']" "owner_writes env_umask = False" "disk state0 = disk0"
    by (simp_all add: env_umask_def env0_def state0_def)
  then have new: "set_output_location_file env_umask state0 ''new''
      = (Inl (FileOperationError ''No write permission for directory: /srv/new''),
         state0\<lparr>disk := disk0([''srv'', ''new''] \<mapsto> Dir False)\<rparr>)"
    unfolding set_output_location_file_def handled_def handle_set_output_location_def
    by (simp add: validate_srv mkdir_parents_disk0_new srv_not_writable str_path_def)
  have d': "is_dir (disk (snd (set_output_location_file env_umask state0 ''new'')))
              [''srv'', ''new'']"
    unfolding new by (simp add: os_eval disk0_def)
  have w': "\<not> os_access_W (disk (snd (set_output_location_file env_umask state0 ''new'')))
                [''srv'', ''new'']"
    unfolding new using srv_not_writable(2) by simp
  have r': "fst (set_output_location_file env_umask state0 ''new'')
              = Inl (FileOperationError ''No write permission for directory: /srv/new'')"
    unfolding new by simp
  from v d w r v' n d' w' r' show ?thesis by (intro conjI)
qed

section \<open>ContentValidator\<close>

lemma validate_dot_content_error:
  "validate_dot_content e d = Inl err \<Longrightarrow> \<exists>msg. err = DOTSyntaxError msg"
  by (auto simp: validate_dot_content_def split: if_splits option.splits)

lemmas pattern_eval =
  DOT_GRAPH_PATTERN_def word_def opt_def plus_def dollar_def is_space_def is_word_def
  ascii_lower_def code_point_def strip_ws_def strip_by_def count_char_def

lemma validate_dot_content_empty:
  "validate_dot_content e '''' = Inl (DOTSyntaxError ''DOT content is empty'')"
  by (simp add: validate_dot_content_def strip_ws_def strip_by_def)

lemma validate_dot_content_not_a_graph:
  "validate_dot_content e ''not a graph''
     = Inl (DOTSyntaxError ''DOT content does not match basic graph syntax'')"
  by (simp add: validate_dot_content_def pattern_eval)

lemma validate_dot_content_open_brace:
  "validate_dot_content e ''digraph { ''
     = Inl (DOTSyntaxError ''DOT content does not match basic graph syntax'')"
  by (simp add: validate_dot_content_def pattern_eval)

lemma validate_dot_content_accepts:
  "pipe e ''digraph G { a -> b; }'' = None \<Longrightarrow>
   validate_dot_content e ''digraph G { a -> b; }'' = Inr ()"
  by (simp add: validate_dot_content_def pattern_eval)

lemma validate_dot_content_accepts_spaced:
  "pipe e ''digraph {a->b}'' = None \<Longrightarrow> validate_dot_content e ''digraph {a->b}'' = Inr ()"
  by (simp add: validate_dot_content_def pattern_eval)

lemma validate_dot_content_no_space:
  "validate_dot_content e ''digraph{a->b}''
     = Inl (DOTSyntaxError ''DOT content does not match basic graph syntax'')"
  by (simp add: validate_dot_content_def pattern_eval)

lemma spec_outer_shape_no_space: "spec_outer_shape ''digraph{a->b}''"
proof -
  have "''digraph{a->b}'' = [] @ ''digraph'' @ [] @ [] @ [] @ ''{'' @ ''a->b'' @ ''}''"
    by simp
  moreover have "map ascii_lower ''digraph'' = ''digraph''"
    by (simp add: ascii_lower_def)
  ultimately show ?thesis
    unfolding spec_outer_shape_def
    by (intro exI [of _ "[]"] exI [of _ "''digraph''"] exI [of _ "''a->b''"]) simp
qed

text \<open>
  C2: the structural checks of \<open>validate_dot_content\<close> reject the description
  \<open>digraph{a->b}\<close>, which has the outer shape of the specification (the keyword
  \<open>digraph\<close>, no identifier, a body in braces up to the end of the input) and as many
  opening as closing braces: the pattern asks for white space after the keyword.
\<close>

theorem validate_dot_content_rejects_shape:
  "spec_outer_shape ''digraph{a->b}''
   \<and> count_char (CHR ''{'') ''digraph{a->b}'' = count_char (CHR ''}'') ''digraph{a->b}''
   \<and> validate_dot_content e ''digraph{a->b}''
       = Inl (DOTSyntaxError ''DOT content does not match basic graph syntax'')"
  using spec_outer_shape_no_space validate_dot_content_no_space [of e]
  by (simp add: count_char_def)

section \<open>A rejected description changes nothing\<close>

text \<open>
  C10: when \<open>validate_dot_content\<close> rejects the description, \<open>generate_dot_file\<close> and
  \<open>generate_png\<close> both signal that \<open>DOTSyntaxError\<close> and return the state they were
  given: the output root is not set or created and no file is written.
\<close>

theorem rejected_content_changes_nothing:
  assumes "validate_dot_content e d = Inl err"
  shows "generate_dot_file e s d n = (Inl err, s)
         \<and> generate_png e s d n w h = (Inl err, s)
         \<and> (\<exists>msg. err = DOTSyntaxError msg)"
  using assms validate_dot_content_error [OF assms]
  by (auto simp: generate_dot_file_def generate_png_def handler_simps)

theorem rejected_content_changes_nothing_witness:
  "validate_dot_content env0 ''not a graph''
     = Inl (DOTSyntaxError ''DOT content does not match basic graph syntax'')
   \<and> generate_dot_file env0 state0 ''not a graph'' ''t1''
       = (Inl (DOTSyntaxError ''DOT content does not match basic graph syntax''), state0)
   \<and> generate_png env0 state0 ''not a graph'' ''t1'' 500 500
       = (Inl (DOTSyntaxError ''DOT content does not match basic graph syntax''), state0)"
  using rejected_content_changes_nothing [OF validate_dot_content_not_a_graph,
      of env0 state0 "''t1''" 500 500]
    validate_dot_content_not_a_graph [of env0]
  by simp

section \<open>The description file\<close>

text \<open>
  C3: \<open>generate_dot_file\<close> on the description \<open>digraph{a->b}\<close> and the name \<open>t1\<close> signals
  \<open>DOTSyntaxError\<close> and writes nothing, in every environment and state.
\<close>

theorem generate_dot_file_no_space_rejected:
  "generate_dot_file e s ''digraph{a->b}'' ''t1''
     = (Inl (DOTSyntaxError ''DOT content does not match basic graph syntax''), s)"
  by (simp add: generate_dot_file_def validate_dot_content_no_space handler_simps)

section \<open>What the pattern accepts has the outer shape\<close>

lemma concE:
  assumes "w \<in> conc A B"
  obtains u v where "w = u @ v" "u \<in> A" "v \<in> B"
  using assms unfolding conc_def by blast

lemma lang_SeqE:
  assumes "w \<in> lang (Seq r s)"
  obtains u v where "w = u @ v" "u \<in> lang r" "v \<in> lang s"
  using assms by (auto elim: concE)

lemma ascii_lower_cases:
  "ascii_lower c = c \<or> ascii_lower c \<in> set ''abcdefghijklmnopqrstuvwxyz''"
proof (cases "map_of (zip ''ABCDEFGHIJKLMNOPQRSTUVWXYZ'' ''abcdefghijklmnopqrstuvwxyz'') c")
  case None
  then have "ascii_lower c = c" by (simp only: ascii_lower_def option.case)
  then show ?thesis by (rule disjI1)
next
  case (Some l)
  then have "(c, l) \<in> set (zip ''ABCDEFGHIJKLMNOPQRSTUVWXYZ'' ''abcdefghijklmnopqrstuvwxyz'')"
    by (rule map_of_SomeD)
  then have "l \<in> set ''abcdefghijklmnopqrstuvwxyz''" by (rule set_zip_rightD)
  moreover from Some have "ascii_lower c = l" by (simp only: ascii_lower_def option.case)
  ultimately have "ascii_lower c \<in> set ''abcdefghijklmnopqrstuvwxyz''" by (simp only:)
  then show ?thesis by (rule disjI2)
qed

lemma ascii_lower_brace:
  "ascii_lower c = CHR ''{'' \<Longrightarrow> c = CHR ''{''"
  "ascii_lower c = CHR ''}'' \<Longrightarrow> c = CHR ''}''"
proof -
  have no: "CHR ''{'' \<notin> set ''abcdefghijklmnopqrstuvwxyz''"
    "CHR ''}'' \<notin> set ''abcdefghijklmnopqrstuvwxyz''"
    by simp_all
  show "ascii_lower c = CHR ''{'' \<Longrightarrow> c = CHR ''{''"
    using ascii_lower_cases [of c] no(1) by metis
  show "ascii_lower c = CHR ''}'' \<Longrightarrow> c = CHR ''}''"
    using ascii_lower_cases [of c] no(2) by metis
qed

lemma lang_word: "lang (word u) = {w. map ascii_lower w = map ascii_lower u}"
proof (induction u)
  case Nil
  show ?case by (simp add: word_def)
next
  case (Cons c u)
  have w: "word (c # u) = Seq (Chr (LitI c)) (word u)" by (simp add: word_def)
  show ?case
  proof (rule set_eqI)
    fix x
    show "x \<in> lang (word (c # u)) \<longleftrightarrow> x \<in> {w. map ascii_lower w = map ascii_lower (c # u)}"
    proof
      assume "x \<in> lang (word (c # u))"
      then have "x \<in> conc {[a] | a. ascii_lower a = ascii_lower c} (lang (word u))"
        by (simp add: w)
      then obtain a v where "x = [a] @ v" "ascii_lower a = ascii_lower c" "v \<in> lang (word u)"
        by (auto elim!: concE)
      then show "x \<in> {w. map ascii_lower w = map ascii_lower (c # u)}"
        by (simp add: Cons.IH)
    next
      assume "x \<in> {w. map ascii_lower w = map ascii_lower (c # u)}"
      then obtain a v where x: "x = a # v" "ascii_lower a = ascii_lower c"
        "map ascii_lower v = map ascii_lower u"
        by (cases x) auto
      then have "[a] \<in> {[a] | a. ascii_lower a = ascii_lower c}" "v \<in> lang (word u)"
        by (simp_all add: Cons.IH)
      then have "[a] @ v \<in> conc {[a] | a. ascii_lower a = ascii_lower c} (lang (word u))"
        unfolding conc_def by blast
      with x(1) show "x \<in> lang (word (c # u))" by (simp add: w)
    qed
  qed
qed

lemma lang_star_space: "s \<in> lang (Star (Chr Space)) \<Longrightarrow> list_all is_space s"
  using star_class_all [of s is_space] by (simp add: list_all_iff)

lemma lang_star_word: "s \<in> lang (Star (Chr Word)) \<Longrightarrow> list_all is_word s"
  using star_class_all [of s is_word] by (simp add: list_all_iff)

lemma lang_plus_space:
  assumes "s \<in> lang (plus (Chr Space))"
  shows "s \<noteq> []" and "list_all is_space s"
proof -
  from assms obtain a v where s: "s = a @ v" and a: "a \<in> lang (Chr Space)"
    and v: "v \<in> lang (Star (Chr Space))"
    unfolding plus_def by (rule lang_SeqE)
  from a obtain c where c: "a = [c]" "is_space c" by auto
  with s show "s \<noteq> []" by simp
  from lang_star_space [OF v] c s show "list_all is_space s" by simp
qed

lemma lang_opt_strict:
  assumes "st \<in> lang (opt (Seq (word ''strict'') (plus (Chr Space))))"
  shows "st = [] \<or>
         (map ascii_lower (take 6 st) = ''strict''
          \<and> drop 6 st \<noteq> [] \<and> list_all is_space (drop 6 st))"
proof (cases "st = []")
  case True
  then show ?thesis by simp
next
  case False
  with assms have "st \<in> lang (Seq (word ''strict'') (plus (Chr Space)))"
    by (simp add: opt_def)
  then obtain k sp where st: "st = k @ sp" and k: "k \<in> lang (word ''strict'')"
    and sp: "sp \<in> lang (plus (Chr Space))"
    by (rule lang_SeqE)
  have low: "map ascii_lower ''strict'' = ''strict''"
    by (simp add: ascii_lower_def)
  from k have mk: "map ascii_lower k = ''strict''"
    unfolding lang_word low by simp
  then have "length (map ascii_lower k) = 6" by simp
  then have len: "length k = 6" by simp
  with st have "take 6 st = k" "drop 6 st = sp" by simp_all
  with mk lang_plus_space [OF sp] show ?thesis by simp
qed

lemma lang_keyword:
  assumes "kw \<in> lang (Alt (word ''graph'') (word ''digraph''))"
  shows "map ascii_lower kw = ''graph'' \<or> map ascii_lower kw = ''digraph''"
proof -
  have low: "map ascii_lower ''graph'' = ''graph''" "map ascii_lower ''digraph'' = ''digraph''"
    by (simp_all add: ascii_lower_def)
  from assms show ?thesis unfolding lang.simps(4) lang_word low by blast
qed

lemma lang_brace:
  "x \<in> lang (Chr (LitI (CHR ''{''))) \<Longrightarrow> x = ''{''"
  "x \<in> lang (Chr (LitI (CHR ''}''))) \<Longrightarrow> x = ''}''"
proof -
  have l: "ascii_lower (CHR ''{'') = CHR ''{''" "ascii_lower (CHR ''}'') = CHR ''}''"
    by (simp_all add: ascii_lower_def)
  show "x \<in> lang (Chr (LitI (CHR ''{''))) \<Longrightarrow> x = ''{''"
    using ascii_lower_brace(1) by (auto simp: l)
  show "x \<in> lang (Chr (LitI (CHR ''}''))) \<Longrightarrow> x = ''}''"
    using ascii_lower_brace(2) by (auto simp: l)
qed

lemma lang_tail_space:
  assumes "z \<in> lang (Seq (Star (Chr Space)) dollar)"
  shows "list_all is_space z"
proof -
  from assms obtain s3 dl where z: "z = s3 @ dl" and s3: "s3 \<in> lang (Star (Chr Space))"
    and dl: "dl \<in> lang dollar"
    by (rule lang_SeqE)
  from dl have "list_all is_space dl"
    unfolding lang_dollar by (auto simp: is_space_def)
  with lang_star_space [OF s3] z show ?thesis by simp
qed

lemma pattern_pieces:
  assumes "t \<in> lang DOT_GRAPH_PATTERN"
  obtains a0 st kw s1 ident s2 body z where
    "t = a0 @ st @ kw @ s1 @ ident @ s2 @ ''{'' @ body @ ''}'' @ z"
    "list_all is_space a0"
    "st = [] \<or> (map ascii_lower (take 6 st) = ''strict''
                 \<and> drop 6 st \<noteq> [] \<and> list_all is_space (drop 6 st))"
    "map ascii_lower kw = ''graph'' \<or> map ascii_lower kw = ''digraph''"
    "s1 \<noteq> []" "list_all is_space s1" "list_all is_word ident" "list_all is_space s2"
    "list_all is_space z"
proof -
  from assms obtain a0 r1 where 1: "t = a0 @ r1" "a0 \<in> lang (Star (Chr Space))"
    "r1 \<in> lang (Seq (opt (Seq (word ''strict'') (plus (Chr Space))))
            (Seq (Alt (word ''graph'') (word ''digraph''))
            (Seq (plus (Chr Space))
            (Seq (Star (Chr Word))
            (Seq (Star (Chr Space))
            (Seq (Chr (LitI (CHR ''{'')))
            (Seq (Star (Chr Dot))
            (Seq (Chr (LitI (CHR ''}'')))
            (Seq (Star (Chr Space)) dollar)))))))))"
    unfolding DOT_GRAPH_PATTERN_def by (rule lang_SeqE)
  from 1(3) obtain st r2 where 2: "r1 = st @ r2"
    "st \<in> lang (opt (Seq (word ''strict'') (plus (Chr Space))))"
    "r2 \<in> lang (Seq (Alt (word ''graph'') (word ''digraph''))
            (Seq (plus (Chr Space))
            (Seq (Star (Chr Word))
            (Seq (Star (Chr Space))
            (Seq (Chr (LitI (CHR ''{'')))
            (Seq (Star (Chr Dot))
            (Seq (Chr (LitI (CHR ''}'')))
            (Seq (Star (Chr Space)) dollar))))))))"
    by (rule lang_SeqE)
  from 2(3) obtain kw r3 where 3: "r2 = kw @ r3"
    "kw \<in> lang (Alt (word ''graph'') (word ''digraph''))"
    "r3 \<in> lang (Seq (plus (Chr Space))
            (Seq (Star (Chr Word))
            (Seq (Star (Chr Space))
            (Seq (Chr (LitI (CHR ''{'')))
            (Seq (Star (Chr Dot))
            (Seq (Chr (LitI (CHR ''}'')))
            (Seq (Star (Chr Space)) dollar)))))))"
    by (rule lang_SeqE)
  from 3(3) obtain s1 r4 where 4: "r3 = s1 @ r4" "s1 \<in> lang (plus (Chr Space))"
    "r4 \<in> lang (Seq (Star (Chr Word))
            (Seq (Star (Chr Space))
            (Seq (Chr (LitI (CHR ''{'')))
            (Seq (Star (Chr Dot))
            (Seq (Chr (LitI (CHR ''}'')))
            (Seq (Star (Chr Space)) dollar))))))"
    by (rule lang_SeqE)
  from 4(3) obtain ident r5 where 5: "r4 = ident @ r5" "ident \<in> lang (Star (Chr Word))"
    "r5 \<in> lang (Seq (Star (Chr Space))
            (Seq (Chr (LitI (CHR ''{'')))
            (Seq (Star (Chr Dot))
            (Seq (Chr (LitI (CHR ''}'')))
            (Seq (Star (Chr Space)) dollar)))))"
    by (rule lang_SeqE)
  from 5(3) obtain s2 r6 where 6: "r5 = s2 @ r6" "s2 \<in> lang (Star (Chr Space))"
    "r6 \<in> lang (Seq (Chr (LitI (CHR ''{'')))
            (Seq (Star (Chr Dot))
            (Seq (Chr (LitI (CHR ''}'')))
            (Seq (Star (Chr Space)) dollar))))"
    by (rule lang_SeqE)
  from 6(3) obtain ob r7 where 7: "r6 = ob @ r7" "ob \<in> lang (Chr (LitI (CHR ''{'')))"
    "r7 \<in> lang (Seq (Star (Chr Dot))
            (Seq (Chr (LitI (CHR ''}'')))
            (Seq (Star (Chr Space)) dollar)))"
    by (rule lang_SeqE)
  from 7(3) obtain body r8 where 8: "r7 = body @ r8"
    "r8 \<in> lang (Seq (Chr (LitI (CHR ''}''))) (Seq (Star (Chr Space)) dollar))"
    by (rule lang_SeqE)
  from 8(2) obtain cb z where 9: "r8 = cb @ z" "cb \<in> lang (Chr (LitI (CHR ''}'')))"
    "z \<in> lang (Seq (Star (Chr Space)) dollar)"
    by (rule lang_SeqE)
  have "t = a0 @ st @ kw @ s1 @ ident @ s2 @ ''{'' @ body @ ''}'' @ z"
    using 1(1) 2(1) 3(1) 4(1) 5(1) 6(1) 7(1) 8(1) 9(1) lang_brace(1) [OF 7(2)]
      lang_brace(2) [OF 9(2)]
    by simp
  then show ?thesis
    using lang_star_space [OF 1(2)] lang_opt_strict [OF 2(2)] lang_keyword [OF 3(2)]
      lang_plus_space [OF 4(2)] lang_star_word [OF 5(2)] lang_star_space [OF 6(2)]
      lang_tail_space [OF 9(3)]
    by (rule that)
qed

lemma pattern_gives_shape:
  assumes m: "re_match DOT_GRAPH_PATTERN t"
    and ne: "t \<noteq> []" and h: "\<not> is_space (hd t)" and l: "\<not> is_space (last t)"
  shows "spec_outer_shape t"
proof -
  from m have "t \<in> lang DOT_GRAPH_PATTERN" by (simp only: re_match_lang)
  then obtain a0 st kw s1 ident s2 body z where
    t: "t = a0 @ st @ kw @ s1 @ ident @ s2 @ ''{'' @ body @ ''}'' @ z"
    and a0: "list_all is_space a0"
    and st: "st = [] \<or> (map ascii_lower (take 6 st) = ''strict''
                 \<and> drop 6 st \<noteq> [] \<and> list_all is_space (drop 6 st))"
    and kw: "map ascii_lower kw = ''graph'' \<or> map ascii_lower kw = ''digraph''"
    and s1: "s1 \<noteq> []" "list_all is_space s1"
    and ident: "list_all is_word ident" and s2: "list_all is_space s2"
    and z: "list_all is_space z"
    by (rule pattern_pieces)
  have "a0 = []"
  proof (rule ccontr)
    assume "a0 \<noteq> []"
    with t have "hd t = hd a0" by simp
    moreover from \<open>a0 \<noteq> []\<close> a0 have "is_space (hd a0)" by (cases a0) simp_all
    ultimately show False using h by simp
  qed
  moreover have "z = []"
  proof (rule ccontr)
    assume "z \<noteq> []"
    with t have "last t = last z" by simp
    moreover from \<open>z \<noteq> []\<close> z have "is_space (last z)"
      by (simp add: list_all_iff)
    ultimately show False using l by simp
  qed
  ultimately have "t = st @ kw @ s1 @ ident @ s2 @ ''{'' @ body @ ''}''"
    using t by simp
  with st kw s1 ident s2 have
    "t = st @ kw @ s1 @ ident @ s2 @ ''{'' @ body @ ''}''
     \<and> (st = [] \<or>
         (map ascii_lower (take 6 st) = ''strict''
          \<and> drop 6 st \<noteq> [] \<and> list_all is_space (drop 6 st)))
     \<and> (map ascii_lower kw = ''graph'' \<or> map ascii_lower kw = ''digraph'')
     \<and> list_all is_space s1 \<and> list_all is_word ident \<and> list_all is_space s2
     \<and> (ident = [] \<or> s1 \<noteq> [])"
    by (simp only: simp_thms)
  then show ?thesis
    unfolding spec_outer_shape_def
    by (intro exI [of _ st] exI [of _ kw] exI [of _ s1] exI [of _ ident] exI [of _ s2]
        exI [of _ body])
qed

text \<open>
  Every description that passes the structural checks has, once trimmed, the outer shape
  of the specification and as many opening as closing braces.  The converse fails at
  \<open>digraph{a->b}\<close>.
\<close>

lemma validate_dot_content_shape:
  assumes "validate_dot_content e d = Inr u"
  shows "spec_outer_shape (strip_ws d)
         \<and> count_char (CHR ''{'') d = count_char (CHR ''}'') d"
proof -
  from assms have ne: "strip_ws d \<noteq> []" and m: "re_match DOT_GRAPH_PATTERN (strip_ws d)"
    and c: "count_char (CHR ''{'') d = count_char (CHR ''}'') d"
    by (auto simp: validate_dot_content_def split: if_splits)
  from ne have "strip_by is_space d \<noteq> []" by (simp add: strip_ws_def)
  from strip_by_ends [OF this]
  have "\<not> is_space (hd (strip_ws d))" "\<not> is_space (last (strip_ws d))"
    by (simp_all add: strip_ws_def)
  with m ne have "spec_outer_shape (strip_ws d)" by (rule pattern_gives_shape)
  with c show ?thesis by simp
qed

section \<open>Creating directories\<close>



















section \<open>OutputStore: the default root\<close>

lemma str_os_error_examples:
  "str_os_error (Errno 13 f) = ''[Errno 13] Permission denied: '' @ [CHR 0x27] @ f @ [CHR 0x27]"
  "str_os_error (Errno 20 f) = ''[Errno 20] Not a directory: '' @ [CHR 0x27] @ f @ [CHR 0x27]"
  "str_os_error (Errno 17 f) = ''[Errno 17] File exists: '' @ [CHR 0x27] @ f @ [CHR 0x27]"
  by (simp_all add: strerror_def str_nat.simps)

lemma ensure_output_directory_error:
  assumes "ensure_output_directory e s = (Inl err, s')"
  shows "(\<exists>msg. err = FileOperationError msg)
         \<or> (\<exists>msg. err = OSError msg \<and> tempdir e = Inl msg \<and> output_directory s = None
                  \<and> s' = s)"
  using assms
  by (auto simp: ensure_output_directory_def Let_def
      split: prod.splits option.splits sum.splits)











section \<open>The rendered image\<close>

lemma generate_png_valid:
  assumes "validate_dot_content e d = Inr u" "0 < w" "0 < h" "w \<le> 10000" "h \<le> 10000"
  shows "generate_png e s d n w h =
           handled handle_generate_png
             (case render_stage e s d n of
                (Inl err, s') \<Rightarrow> (Inl err, s')
              | (Inr p, s') \<Rightarrow>
                  (Inr (''PNG file successfully created: '' @ str_path p
                        @ '' ('' @ str_int w @ ''x'' @ str_int h @ '' target size)''), s'))"
proof -
  obtain r s1 where en: "ensure_output_directory e s = (r, s1)"
    by (cases "ensure_output_directory e s")
  show ?thesis
  proof (cases r)
    case (Inl err)
    with assms en show ?thesis
      by (simp add: generate_png_def render_stage_def split del: if_split)
  next
    case (Inr output_dir)
    define file_path where "file_path = path_join output_dir
      (if endswith (sanitize_filename n) ''.png'' then sanitize_filename n
       else sanitize_filename n @ ''.png'')"
    have L: "generate_png e s d n w h = handled handle_generate_png
      (case validate_path_security (disk s1) (cwd e) (str_path file_path) (Some output_dir) of
         Inl err \<Rightarrow> (Inl err, s1)
       | Inr v \<Rightarrow>
           (case with_suffix file_path [] of
              Inl msg \<Rightarrow> (Inl (FileOperationError (''Failed to render PNG: '' @ msg)), s1)
            | Inr target \<Rightarrow>
                (case render e \<lparr>arg_source = d, arg_format = ''png'',
                                arg_filename = str_path target,
                                arg_cleanup = True, arg_quiet_view = True\<rparr> (disk s1) of
                   (Some msg, fs2) \<Rightarrow>
                     (Inl (FileOperationError (''Failed to render PNG: '' @ msg)),
                      s1\<lparr>render_calls := render_calls s1 @
                           [\<lparr>arg_source = d, arg_format = ''png'',
                             arg_filename = str_path target,
                             arg_cleanup = True, arg_quiet_view = True\<rparr>], disk := fs2\<rparr>)
                 | (None, fs2) \<Rightarrow>
                     (case with_suffix file_path ''.png'' of
                        Inl msg \<Rightarrow>
                          (Inl (FileOperationError (''Failed to render PNG: '' @ msg)),
                           s1\<lparr>render_calls := render_calls s1 @
                                [\<lparr>arg_source = d, arg_format = ''png'',
                                  arg_filename = str_path target,
                                  arg_cleanup = True, arg_quiet_view = True\<rparr>], disk := fs2\<rparr>)
                      | Inr actual_file_path \<Rightarrow>
                          if \<not> exists_path fs2 actual_file_path
                          then (Inl (FileOperationError
                                  (''Failed to render PNG: ''
                                   @ ''PNG file was not created successfully'')),
                                s1\<lparr>render_calls := render_calls s1 @
                                     [\<lparr>arg_source = d, arg_format = ''png'',
                                       arg_filename = str_path target,
                                       arg_cleanup = True, arg_quiet_view = True\<rparr>],
                                   disk := fs2\<rparr>)
                          else (Inr (''PNG file successfully created: ''
                                     @ str_path actual_file_path
                                     @ '' ('' @ str_int w @ ''x''
                                     @ str_int h @ '' target size)''),
                                s1\<lparr>render_calls := render_calls s1 @
                                     [\<lparr>arg_source = d, arg_format = ''png'',
                                       arg_filename = str_path target,
                                       arg_cleanup = True, arg_quiet_view = True\<rparr>],
                                   disk := fs2\<rparr>)))))"
      using assms en Inr unfolding generate_png_def file_path_def Let_def
      by (simp split del: if_split cong: sum.case_cong prod.case_cong option.case_cong if_cong)
    have R: "render_stage e s d n =
      (case validate_path_security (disk s1) (cwd e) (str_path file_path) (Some output_dir) of
         Inl err \<Rightarrow> (Inl err, s1)
       | Inr v \<Rightarrow>
           (case with_suffix file_path [] of
              Inl msg \<Rightarrow> (Inl (FileOperationError (''Failed to render PNG: '' @ msg)), s1)
            | Inr target \<Rightarrow>
                (case render e \<lparr>arg_source = d, arg_format = ''png'',
                                arg_filename = str_path target,
                                arg_cleanup = True, arg_quiet_view = True\<rparr> (disk s1) of
                   (Some msg, fs2) \<Rightarrow>
                     (Inl (FileOperationError (''Failed to render PNG: '' @ msg)),
                      s1\<lparr>render_calls := render_calls s1 @
                           [\<lparr>arg_source = d, arg_format = ''png'',
                             arg_filename = str_path target,
                             arg_cleanup = True, arg_quiet_view = True\<rparr>], disk := fs2\<rparr>)
                 | (None, fs2) \<Rightarrow>
                     (case with_suffix file_path ''.png'' of
                        Inl msg \<Rightarrow>
                          (Inl (FileOperationError (''Failed to render PNG: '' @ msg)),
                           s1\<lparr>render_calls := render_calls s1 @
                                [\<lparr>arg_source = d, arg_format = ''png'',
                                  arg_filename = str_path target,
                                  arg_cleanup = True, arg_quiet_view = True\<rparr>], disk := fs2\<rparr>)
                      | Inr actual_file_path \<Rightarrow>
                          if \<not> exists_path fs2 actual_file_path
                          then (Inl (FileOperationError
                                  (''Failed to render PNG: ''
                                   @ ''PNG file was not created successfully'')),
                                s1\<lparr>render_calls := render_calls s1 @
                                     [\<lparr>arg_source = d, arg_format = ''png'',
                                       arg_filename = str_path target,
                                       arg_cleanup = True, arg_quiet_view = True\<rparr>],
                                   disk := fs2\<rparr>)
                          else (Inr actual_file_path,
                                s1\<lparr>render_calls := render_calls s1 @
                                     [\<lparr>arg_source = d, arg_format = ''png'',
                                       arg_filename = str_path target,
                                       arg_cleanup = True, arg_quiet_view = True\<rparr>],
                                   disk := fs2\<rparr>)))))"
      using en Inr unfolding render_stage_def file_path_def Let_def
      by (simp split del: if_split cong: sum.case_cong prod.case_cong option.case_cong if_cong)
    show ?thesis
      unfolding L R
      by (rule arg_cong [where f = "handled handle_generate_png"])
         (simp split: sum.split prod.split option.split)
  qed
qed

lemma generate_png_rejected:
  "validate_dot_content e d = Inl err \<Longrightarrow> generate_png e s d n w h = (Inl err, s)"
  using validate_dot_content_error [of e d err]
  by (auto simp: generate_png_def handler_simps)

lemma render_stage_errors:
  assumes "render_stage e s d n = (Inl err, s')"
  shows "\<exists>msg. err = FileOperationError msg \<or> err = SecurityError msg \<or> err = OSError msg"
proof -
  obtain r s1 where en: "ensure_output_directory e s = (r, s1)"
    by (cases "ensure_output_directory e s")
  show ?thesis
  proof (cases r)
    case (Inl err')
    with assms en have "err = err'"
      by (simp add: render_stage_def split del: if_split)
    with Inl en ensure_output_directory_error [of e s err' s1] show ?thesis by auto
  next
    case (Inr output_dir)
    define file_path where "file_path = path_join output_dir
      (if endswith (sanitize_filename n) ''.png'' then sanitize_filename n
       else sanitize_filename n @ ''.png'')"
    define vp where
      "vp = validate_path_security (disk s1) (cwd e) (str_path file_path) (Some output_dir)"
    have sec: "\<exists>msg. x = SecurityError msg" if "vp = Inl x" for x
      using that validate_path_security_error unfolding vp_def by blast
    from assms en Inr have
      "(case vp of
          Inl err \<Rightarrow> (Inl err, s1)
        | Inr v \<Rightarrow>
            (case with_suffix file_path [] of
               Inl msg \<Rightarrow> (Inl (FileOperationError (''Failed to render PNG: '' @ msg)), s1)
             | Inr target \<Rightarrow>
                 (case render e \<lparr>arg_source = d, arg_format = ''png'',
                                 arg_filename = str_path target,
                                 arg_cleanup = True, arg_quiet_view = True\<rparr> (disk s1) of
                    (Some msg, fs2) \<Rightarrow>
                      (Inl (FileOperationError (''Failed to render PNG: '' @ msg)),
                       s1\<lparr>render_calls := render_calls s1 @
                            [\<lparr>arg_source = d, arg_format = ''png'',
                              arg_filename = str_path target,
                              arg_cleanup = True, arg_quiet_view = True\<rparr>], disk := fs2\<rparr>)
                  | (None, fs2) \<Rightarrow>
                      (case with_suffix file_path ''.png'' of
                         Inl msg \<Rightarrow>
                           (Inl (FileOperationError (''Failed to render PNG: '' @ msg)),
                            s1\<lparr>render_calls := render_calls s1 @
                                 [\<lparr>arg_source = d, arg_format = ''png'',
                                   arg_filename = str_path target,
                                   arg_cleanup = True, arg_quiet_view = True\<rparr>], disk := fs2\<rparr>)
                       | Inr actual_file_path \<Rightarrow>
                           if \<not> exists_path fs2 actual_file_path
                           then (Inl (FileOperationError
                                   (''Failed to render PNG: ''
                                    @ ''PNG file was not created successfully'')),
                                 s1\<lparr>render_calls := render_calls s1 @
                                      [\<lparr>arg_source = d, arg_format = ''png'',
                                        arg_filename = str_path target,
                                        arg_cleanup = True, arg_quiet_view = True\<rparr>],
                                    disk := fs2\<rparr>)
                           else (Inr actual_file_path,
                                 s1\<lparr>render_calls := render_calls s1 @
                                      [\<lparr>arg_source = d, arg_format = ''png'',
                                        arg_filename = str_path target,
                                        arg_cleanup = True, arg_quiet_view = True\<rparr>],
                                    disk := fs2\<rparr>))))) = (Inl err, s')"
      unfolding render_stage_def file_path_def vp_def Let_def
      by (simp split del: if_split cong: sum.case_cong prod.case_cong option.case_cong if_cong)
    then show ?thesis
      using sec by (auto split: sum.splits prod.splits option.splits if_splits)
  qed
qed

lemma generate_png_bad_dimensions:
  assumes "validate_dot_content e d = Inr u"
    and "w \<le> 0 \<or> h \<le> 0 \<or> w > 10000 \<or> h > 10000"
  shows "\<exists>msg. generate_png e s d n w h = (Inl (ValueError msg), s)"
  using assms unfolding generate_png_def by (auto simp: handler_simps)

text \<open>
  C5: for a description that \<open>validate_dot_content\<close> accepts, \<open>generate_png\<close> signals
  \<open>ValueError\<close>, the parameter-validation error, if and only if the width or the height
  is not positive or exceeds 10000; it then leaves the state unchanged.  \<open>ValueError\<close> is
  a constructor of its own, distinct from \<open>SecurityError\<close>, \<open>DOTSyntaxError\<close> and
  \<open>FileOperationError\<close>.
\<close>

theorem generate_png_dimension_error:
  assumes "validate_dot_content e d = Inr u"
  shows "((\<exists>msg. fst (generate_png e s d n w h) = Inl (ValueError msg))
            \<longleftrightarrow> (w \<le> 0 \<or> h \<le> 0 \<or> w > 10000 \<or> h > 10000))
         \<and> (w \<le> 0 \<or> h \<le> 0 \<or> w > 10000 \<or> h > 10000
              \<longrightarrow> snd (generate_png e s d n w h) = s)"
proof -
  have 1: "\<exists>msg. fst (generate_png e s d n w h) = Inl (ValueError msg)"
    and 2: "snd (generate_png e s d n w h) = s"
    if "w \<le> 0 \<or> h \<le> 0 \<or> w > 10000 \<or> h > 10000"
    using generate_png_bad_dimensions [OF assms that, of s n] by auto
  have 3: "w \<le> 0 \<or> h \<le> 0 \<or> w > 10000 \<or> h > 10000"
    if v: "fst (generate_png e s d n w h) = Inl (ValueError msg)" for msg
  proof (rule ccontr)
    assume "\<not> (w \<le> 0 \<or> h \<le> 0 \<or> w > 10000 \<or> h > 10000)"
    then have ok: "0 < w" "0 < h" "w \<le> 10000" "h \<le> 10000" by simp_all
    obtain r s' where rs: "render_stage e s d n = (r, s')"
      by (cases "render_stage e s d n")
    from v have "r = Inl (ValueError msg)"
      unfolding generate_png_valid [OF assms ok] rs
      by (cases r) (simp_all add: handled_Inl handled_Inr handle_generate_png_ValueError)
    with rs render_stage_errors [of e s d n "ValueError msg" s'] show False by simp
  qed
  from 1 2 3 show ?thesis by blast
qed

text \<open>
  C9: for two pairs of dimensions that pass the dimension check, \<open>generate_png\<close> leaves
  the same state (the same file system and the same calls of the renderer, none of
  which carries the DPI value) and fails with the same error or succeeds in both cases;
  on success the two messages differ in the dimensions only.  This holds for every
  description, accepted or not.
\<close>

theorem generate_png_ignores_dimensions:
  assumes "0 < w1" "0 < h1" "w1 \<le> 10000" "h1 \<le> 10000"
    and "0 < w2" "0 < h2" "w2 \<le> 10000" "h2 \<le> 10000"
  shows "snd (generate_png e s d n w1 h1) = snd (generate_png e s d n w2 h2)
         \<and> (\<forall>err. fst (generate_png e s d n w1 h1) = Inl err
                    \<longleftrightarrow> fst (generate_png e s d n w2 h2) = Inl err)
         \<and> (\<forall>m. fst (generate_png e s d n w1 h1) = Inr m \<longrightarrow>
               (\<exists>p. m = ''PNG file successfully created: '' @ p
                         @ '' ('' @ str_int w1 @ ''x'' @ str_int h1 @ '' target size)''
                    \<and> fst (generate_png e s d n w2 h2)
                        = Inr (''PNG file successfully created: '' @ p
                               @ '' ('' @ str_int w2 @ ''x'' @ str_int h2 @ '' target size)'')))"
proof (cases "validate_dot_content e d")
  case (Inl err)
  then show ?thesis by (simp add: generate_png_rejected)
next
  case (Inr u)
  obtain r s' where rs: "render_stage e s d n = (r, s')"
    by (cases "render_stage e s d n")
  show ?thesis
    unfolding generate_png_valid [OF Inr assms(1-4)] generate_png_valid [OF Inr assms(5-8)] rs
    by (cases r) (auto simp: handled_Inl handled_Inr)
qed

section \<open>The operations on the example environment\<close>

lemma sanitize_t1: "sanitize_filename ''t1'' = ''t1''"
  by (simp add: sanitize_filename_def replace_reserved_def reserved_chars_def strip_chars_def
      strip_by_def)

lemma ensure_env0_full:
  "ensure_output_directory env0 state0
     = (Inr [''tmp'', ''mcp_graphviz_output''],
        state0\<lparr>output_directory := Some [''tmp'', ''mcp_graphviz_output''],
               disk := disk0([''tmp'', ''mcp_graphviz_output''] \<mapsto> Dir True)\<rparr>)"
  by (simp add: ensure_output_directory_def Let_def os_eval env0_def state0_def disk0_def)

lemma validate_t1_png:
  "validate_path_security (disk0([''tmp'', ''mcp_graphviz_output''] \<mapsto> Dir True)) [''srv'']
     ''/tmp/mcp_graphviz_output/t1.png'' (Some [''tmp'', ''mcp_graphviz_output''])
   = Inr [''tmp'', ''mcp_graphviz_output'', ''t1.png'']"
  by (simp add: path_eval)

lemma validate_t1_dot:
  "validate_path_security (disk0([''tmp'', ''mcp_graphviz_output''] \<mapsto> Dir True)) [''srv'']
     ''/tmp/mcp_graphviz_output/t1.dot'' (Some [''tmp'', ''mcp_graphviz_output''])
   = Inr [''tmp'', ''mcp_graphviz_output'', ''t1.dot'']"
  by (simp add: path_eval)

lemma with_suffix_t1:
  "with_suffix [''tmp'', ''mcp_graphviz_output'', ''t1.png''] []
     = Inr [''tmp'', ''mcp_graphviz_output'', ''t1'']"
  "with_suffix [''tmp'', ''mcp_graphviz_output'', ''t1.png''] ''.png''
     = Inr [''tmp'', ''mcp_graphviz_output'', ''t1.png'']"
  by (simp_all add: with_suffix_def suffix_of_def Let_def)

lemma str_int_examples: "str_int 500 = ''500''" "str_int 800 = ''800''" "str_int 600 = ''600''"
  by (simp_all add: str_int_def str_nat.simps)

lemma render_stage_env0:
  "fst (render_stage env0 state0 ''digraph G { a -> b; }'' ''t1'')
     = Inr [''tmp'', ''mcp_graphviz_output'', ''t1.png'']"
proof -
  have c: "cwd env0 = [''srv'']" by (simp add: env0_def)
  show ?thesis
    unfolding render_stage_def ensure_env0_full
    by (simp add: Let_def sanitize_t1 endswith_def path_join_def is_absolute_def path_parts_def
        c path_eval with_suffix_t1 env0_def exists_path_def lookup_def)
qed

lemma accepted_env0: "validate_dot_content env0 ''digraph G { a -> b; }'' = Inr ()"
  by (rule validate_dot_content_accepts) (simp add: env0_def)

lemma generate_png_env0:
  assumes "0 < w" "0 < h" "w \<le> 10000" "h \<le> 10000"
  shows "fst (generate_png env0 state0 ''digraph G { a -> b; }'' ''t1'' w h)
           = Inr (''PNG file successfully created: /tmp/mcp_graphviz_output/t1.png''
                  @ '' ('' @ str_int w @ ''x'' @ str_int h @ '' target size)'')"
proof -
  obtain s' where "render_stage env0 state0 ''digraph G { a -> b; }'' ''t1''
                     = (Inr [''tmp'', ''mcp_graphviz_output'', ''t1.png''], s')"
    using render_stage_env0 by (metis prod.collapse)
  then show ?thesis
    unfolding generate_png_valid [OF accepted_env0 assms]
    by (simp add: str_path_def handled_Inr)
qed

theorem generate_png_dimension_error_witness:
  "validate_dot_content env0 ''digraph G { a -> b; }'' = Inr ()
   \<and> (\<exists>msg. fst (generate_png env0 state0 ''digraph G { a -> b; }'' ''t1'' 0 500)
               = Inl (ValueError msg))
   \<and> (\<exists>msg. fst (generate_png env0 state0 ''digraph G { a -> b; }'' ''t1'' 500 20000)
               = Inl (ValueError msg))
   \<and> (\<nexists>msg. fst (generate_png env0 state0 ''digraph G { a -> b; }'' ''t1'' 500 500)
               = Inl (ValueError msg))"
  using accepted_env0
    generate_png_dimension_error [OF accepted_env0, of state0 "''t1''" 0 500]
    generate_png_dimension_error [OF accepted_env0, of state0 "''t1''" 500 20000]
    generate_png_dimension_error [OF accepted_env0, of state0 "''t1''" 500 500]
  by simp

theorem generate_png_ignores_dimensions_witness:
  "snd (generate_png env0 state0 ''digraph G { a -> b; }'' ''t1'' 500 500)
     = snd (generate_png env0 state0 ''digraph G { a -> b; }'' ''t1'' 800 600)
   \<and> fst (generate_png env0 state0 ''digraph G { a -> b; }'' ''t1'' 500 500)
       = Inr ''PNG file successfully created: /tmp/mcp_graphviz_output/t1.png (500x500 target size)''
   \<and> fst (generate_png env0 state0 ''digraph G { a -> b; }'' ''t1'' 800 600)
       = Inr ''PNG file successfully created: /tmp/mcp_graphviz_output/t1.png (800x600 target size)''"
proof -
  have a: "0 < (500::int)" "(500::int) \<le> 10000" by simp_all
  have b: "0 < (800::int)" "0 < (600::int)" "(800::int) \<le> 10000" "(600::int) \<le> 10000"
    by simp_all
  from generate_png_ignores_dimensions [OF a(1) a(1) a(2) a(2) b(1) b(2) b(3) b(4),
      of env0 state0 "''digraph G { a -> b; }''" "''t1''"]
  have "snd (generate_png env0 state0 ''digraph G { a -> b; }'' ''t1'' 500 500)
          = snd (generate_png env0 state0 ''digraph G { a -> b; }'' ''t1'' 800 600)"
    by blast
  moreover note generate_png_env0 [OF a(1) a(1) a(2) a(2)]
    generate_png_env0 [OF b(1) b(2) b(3) b(4)]
  ultimately show ?thesis by (simp add: str_int_examples)
qed

section \<open>The description file: the round trip of an accepted description\<close>

lemma write_text_read:
  assumes "write_text w fs p t = Inr fs'"
  shows "read_bytes fs' p = Some (utf8 t)"
proof -
  from assms obtain q where rp: "realpath fs [] p = Some q"
    by (auto simp: write_text_def split: option.splits)
  from assms rp obtain wr where fs': "fs' = fs(q \<mapsto> File wr (utf8 t))" and nl: "\<not> is_link fs q"
    by (auto simp: write_text_def is_link_def split: option.splits node.splits if_splits)
  have "realpath fs' [] p = Some q"
    unfolding fs' realpath_update(2) [OF nl] by (rule rp)
  then show ?thesis
    by (simp add: read_bytes_def lookup_def fs')
qed

lemma handled_Inr_iff: "handled h r = (Inr v, s) \<longleftrightarrow> r = (Inr v, s)"
  by (cases r) (auto simp: handled_def split: sum.splits)

lemma generate_dot_file_round_trip:
  assumes "generate_dot_file e s d n = (Inr m, s')"
  shows "\<exists>p. m = ''DOT file successfully created: '' @ str_path p
             \<and> read_bytes (disk s') p = Some (utf8 d)"
proof -
  obtain r s1 where en: "ensure_output_directory e s = (r, s1)"
    by (cases "ensure_output_directory e s")
  define file_path where "file_path = path_join (projr r)
      (if endswith (sanitize_filename n) ''.dot'' then sanitize_filename n
       else sanitize_filename n @ ''.dot'')"
  from assms en have
    "\<exists>fs2. write_text (owner_writes e) (disk s1) file_path d = Inr fs2
           \<and> m = ''DOT file successfully created: '' @ str_path file_path
           \<and> s' = s1\<lparr>disk := fs2\<rparr>"
    unfolding generate_dot_file_def handled_Inr_iff Let_def file_path_def
    by (cases "validate_dot_content e d"; cases r)
       (auto split: sum.splits simp del: str_path_def)
  then obtain fs2 where w: "write_text (owner_writes e) (disk s1) file_path d = Inr fs2"
    and m: "m = ''DOT file successfully created: '' @ str_path file_path"
    and s': "s' = s1\<lparr>disk := fs2\<rparr>"
    by blast
  from write_text_read [OF w] s' have "read_bytes (disk s') file_path = Some (utf8 d)" by simp
  with m show ?thesis by blast
qed

lemma generate_dot_file_env0:
  "fst (generate_dot_file env0 state0 ''digraph {a->b}'' ''t1'')
     = Inr ''DOT file successfully created: /tmp/mcp_graphviz_output/t1.dot''
   \<and> read_bytes (disk (snd (generate_dot_file env0 state0 ''digraph {a->b}'' ''t1'')))
        [''tmp'', ''mcp_graphviz_output'', ''t1.dot''] = Some ''digraph {a->b}''"
proof -
  have c: "cwd env0 = [''srv'']" and p: "pipe env0 ''digraph {a->b}'' = None"
    by (simp_all add: env0_def)
  have v: "validate_dot_content env0 ''digraph {a->b}'' = Inr ()"
    using p by (rule validate_dot_content_accepts_spaced)
  show ?thesis
    unfolding generate_dot_file_def v ensure_env0_full
    by (simp add: Let_def sanitize_t1 endswith_def path_join_def is_absolute_def path_parts_def
        c path_eval write_text_def read_bytes_def utf8_def code_point_def
        state0_def env0_def lookup_def handled_Inr)
qed

end
